theory Spec2Isabelle
  imports Main "HOL-Library.Sublist"
begin

section \<open>JavaScript values the code relies on\<close>

text \<open>
  Addresses, chain names, token names and messages are JavaScript strings. A wallet is an
  opaque handle; the signer obtained from it by \<^verbatim>\<open>provider.getSigner()\<close> is
  identified with the wallet.
\<close>

type_synonym address = string
type_synonym wallet = nat
type_synonym tx = string

text \<open>
  The tables \<^verbatim>\<open>supportedChains\<close> and \<^verbatim>\<open>decimalConverter[chainId]\<close> are
  plain object literals indexed by a caller-supplied string. A property read on such an
  object finds the object's own properties first and then the members of
  \<^verbatim>\<open>Object.prototype\<close>; only a name found in neither yields
  \<^verbatim>\<open>undefined\<close>. The result of a property read is therefore one of three things.
\<close>

datatype 'a jsprop = Undefined | Own 'a | Inherited string

definition objectPrototypeKeys :: "string list" where
  "objectPrototypeKeys =
     [''constructor'', ''__defineGetter__'', ''__defineSetter__'', ''hasOwnProperty'',
      ''__lookupGetter__'', ''__lookupSetter__'', ''isPrototypeOf'',
      ''propertyIsEnumerable'', ''toString'', ''valueOf'', ''__proto__'',
      ''toLocaleString'']"

definition js_lookup :: "(string \<times> 'a) list \<Rightarrow> string \<Rightarrow> 'a jsprop" where
  "js_lookup tbl k =
     (case map_of tbl k of
        Some v \<Rightarrow> Own v
      | None \<Rightarrow> if k \<in> set objectPrototypeKeys then Inherited k else Undefined)"

text \<open>
  The tables indexed by a chain id (\<^verbatim>\<open>UNISWAP_V2_ROUTER\<close>,
  \<^verbatim>\<open>UNISWAP_V2_FACTORY\<close>, \<^verbatim>\<open>decimalConverter\<close>) have numeric keys. When the
  chain id is a number the key is its decimal form; when it is a member of
  \<^verbatim>\<open>Object.prototype\<close> (a function, or the prototype object itself) the key is
  that member's string form, which names no property, so the read is \<^verbatim>\<open>undefined\<close>.
\<close>

type_synonym chainid = "nat jsprop"

definition num_lookup :: "(nat \<times> 'a) list \<Rightarrow> chainid \<Rightarrow> 'a option" where
  "num_lookup tbl c = (case c of Own n \<Rightarrow> map_of tbl n | _ \<Rightarrow> None)"

text \<open>
  A thrown value is either an \<^verbatim>\<open>Error\<close> built by this code with a message, or a
  value thrown by a collaborator (wallet, RPC node, venue API, library), of which the code
  reads the properties \<^verbatim>\<open>message\<close> and \<^verbatim>\<open>body\<close> (with
  \<^verbatim>\<open>errorType\<close> and an optional \<^verbatim>\<open>description\<close>).
\<close>

datatype error = Error string | Thrown "string option" "(string \<times> string option) option"

fun message :: "error \<Rightarrow> string option" where
  "message (Error m) = Some m"
| "message (Thrown m b) = m"

fun body :: "error \<Rightarrow> (string \<times> string option) option" where
  "body (Error m) = None"
| "body (Thrown m b) = b"

section \<open>Constant tables of the module\<close>

definition UNISWAP_V2_ROUTER :: "(nat \<times> address) list" where
  "UNISWAP_V2_ROUTER =
     [(1, ''0x7a250d5630B4cF539739dF2C5dAcb4c659F2488D''),
      (11155111, ''0xC532a74256D3Db42D0Bf7a0400fEFDbad7694008'')]"

definition UNISWAP_V2_FACTORY :: "(nat \<times> address) list" where
  "UNISWAP_V2_FACTORY =
     [(1, ''0x5C69bEe701ef814a2B6a3EDD4B1652CB9cc5aA6f''),
      (11155111, ''0x7E0987E5b3a30e3f2828572Bb659A548460a3003'')]"

definition decimalConverter :: "(nat \<times> (string \<times> nat) list) list" where
  "decimalConverter =
     [(11155111,
        [(''0x7b79995e5f793A07Bc00c21412e50Ecae098E7f9'', 18),
         (''0x94a9d9ac8a22534e3faca9f4e7f2e2cf85d5e4c8'', 6),
         (''0x1c7D4B196Cb0C7B01d743Fbc6116a902379C7238'', 6),
         (''0x08210F9170F89Ab7658F0B5E3fF39b0E03C594D4'', 6),
         (''0xB4F1737Af37711e9A5890D9510c9bB60e170CB0D'', 18),
         (''0xbe72E441BF55620febc26715db68d3494213D8Cb'', 18)]),
      (1,
        [(''0xC02aaA39b223FE8D0A0e5C4F27eAD9083C756Cc2'', 18),
         (''0xA0b86991c6218b36c1d19D4a2e9Eb0cE3606eB48'', 6),
         (''0x6B175474E89094C44Da98b954EedeAC495271d0F'', 18),
         (''0x1aBaEA1f7C830bD89Acc67eC4af516284b1bC33c'', 6)])]"

definition supportedChains :: "(string \<times> nat) list" where
  "supportedChains = [(''sepolia'', 11155111), (''mainnet'', 1), (''base'', 8453)]"

definition AddressZero :: address where
  "AddressZero = ''0x0000000000000000000000000000000000000000''"

definition MaxUint256 :: int where
  "MaxUint256 = 2 ^ 256 - 1"

section \<open>Effects: calls on collaborators\<close>

text \<open>
  Every call that leaves the module (wallet, signer, token and venue contracts, the
  order-book API, the name service, the clock and the timer) is recorded as an event, in
  the order the calls are made.
  A factory contract is connected either through the read-only provider (the probe) or
  through the signer (pool creation).
\<close>

datatype via = ViaProvider | ViaSigner

datatype OrderStatus = PRESIGNATURE_PENDING | OPEN | FULFILLED | CANCELLED | EXPIRED

text \<open>
  The amounts of a quote are strings: a digit string, carried as the integer it spells, or
  a number in exponent notation, as \<^verbatim>\<open>Number.prototype.toString\<close> prints from
  \<open>10\<^sup>2\<^sup>1\<close> on, of which only the value is kept.
\<close>

datatype numstr = Digits nat | Exponent nat

record quoteRequest =
  qr_sellToken :: address
  qr_buyToken :: address
  qr_from :: address
  qr_receiver :: address
  qr_sellAmountBeforeFee :: int

record quote =
  q_sellToken :: address
  q_buyToken :: address
  q_receiver :: "address option"
  q_sellAmount :: int
  q_buyAmount :: numstr
  q_feeAmount :: int
  q_validTo :: nat
  q_appData :: string
  q_partiallyFillable :: bool

record orderObj =
  o_quote :: quote
  o_signature :: string
  o_quoteId :: "nat option"
  o_from :: address

datatype event =
    SwitchChain wallet chainid
  | GetEthersProvider wallet
  | GetAddress wallet
  | Allowance address address "address option"
  | Approve address "address option" int
  | TxWait tx
  | GetPair via address address address
  | CreatePair address address address
  | DateNow
  | GetAmountsOut address int "address list"
  | SwapExactTokensForTokens address int nat "address list" address nat nat
  | ResolveName string
  | Transfer address address int
  | GetQuote chainid quoteRequest
  | SignOrder quote chainid wallet
  | PostOrder chainid orderObj
  | Sleep nat
  | GetOrder chainid string

text \<open>
  The collaborators are not part of the program. Their answers are a parameter: each
  call's answer is a function of the whole interaction so far (the log, ending with the
  call itself), so an answer may depend on anything that happened before, and every
  behaviour of the outside world is some value of this record. The record also carries the
  two library items the module imports and whose content it does not fix: the predicate
  \<^verbatim>\<open>ethers.utils.isAddress\<close> and the table
  \<^verbatim>\<open>COW_PROTOCOL_VAULT_RELAYER_ADDRESS\<close>.
\<close>

record env =
  switchChain_r :: "event list \<Rightarrow> error + unit"
  getEthersProvider_r :: "event list \<Rightarrow> error + unit"
  getAddress_r :: "event list \<Rightarrow> error + address"
  allowance_r :: "event list \<Rightarrow> error + int"
  approve_r :: "event list \<Rightarrow> error + tx"
  wait_r :: "event list \<Rightarrow> error + nat"
  getPair_r :: "event list \<Rightarrow> error + address"
  createPair_r :: "event list \<Rightarrow> error + tx"
  getOrder_r :: "event list \<Rightarrow> error + OrderStatus"
  now_r :: "event list \<Rightarrow> nat"
  getAmountsOut_r :: "event list \<Rightarrow> error + nat list"
  swap_r :: "event list \<Rightarrow> error + tx"
  resolveName_r :: "event list \<Rightarrow> error + address option"
  transfer_r :: "event list \<Rightarrow> error + tx"
  getQuote_r :: "event list \<Rightarrow> error + quote \<times> nat option"
  signOrder_r :: "event list \<Rightarrow> error + string"
  sendOrder_r :: "event list \<Rightarrow> error + string"
  isAddress :: "string \<Rightarrow> bool"
  COW_PROTOCOL_VAULT_RELAYER_ADDRESS :: "(nat \<times> address) list"

text \<open>
  An asynchronous function of the source takes the log and returns its outcome (a thrown
  error on the left, a value on the right) with the extended log.
\<close>

type_synonym 'a io = "event list \<Rightarrow> (error + 'a) \<times> event list"

definition ret :: "'a \<Rightarrow> 'a io" where
  "ret x = (\<lambda>log. (Inr x, log))"

definition throw :: "error \<Rightarrow> 'a io" where
  "throw e = (\<lambda>log. (Inl e, log))"

definition bind :: "'a io \<Rightarrow> ('a \<Rightarrow> 'b io) \<Rightarrow> 'b io" where
  "bind m f = (\<lambda>log. case m log of (Inl e, log') \<Rightarrow> (Inl e, log') | (Inr x, log') \<Rightarrow> f x log')"

definition try_catch :: "'a io \<Rightarrow> (error \<Rightarrow> 'a io) \<Rightarrow> 'a io" where
  "try_catch m h = (\<lambda>log. case m log of (Inl e, log') \<Rightarrow> h e log' | (Inr x, log') \<Rightarrow> (Inr x, log'))"

definition call :: "(event list \<Rightarrow> error + 'a) \<Rightarrow> event \<Rightarrow> 'a io" where
  "call r ev = (\<lambda>log. (r (log @ [ev]), log @ [ev]))"

text \<open>A computation inside the module (a library function that may throw): no event.\<close>

definition lift :: "error + 'a \<Rightarrow> 'a io" where
  "lift r = (\<lambda>log. (r, log))"

text \<open>The events that submit a state-changing transaction.\<close>

fun is_tx :: "event \<Rightarrow> bool" where
  "is_tx (Approve t s a) = True"
| "is_tx (CreatePair f a b) = True"
| "is_tx (SwapExactTokensForTokens r a m p t d g) = True"
| "is_tx (Transfer t r a) = True"
| "is_tx _ = False"

definition transactions :: "event list \<Rightarrow> event list" where
  "transactions log = filter is_tx log"

section \<open>Allowance manager\<close>

text \<open>
  \<^verbatim>\<open>checkAllowanceAndApproveIfNecessary\<close>: the owner is read from the signer, then the
  allowance; \<^verbatim>\<open>targetContract\<close> is \<^verbatim>\<open>None\<close> when the caller's table lookup gave
  \<^verbatim>\<open>undefined\<close>.
\<close>

definition checkAllowanceAndApproveIfNecessary ::
  "env \<Rightarrow> address option \<Rightarrow> address \<Rightarrow> wallet \<Rightarrow> int \<Rightarrow> unit io" where
  "checkAllowanceAndApproveIfNecessary env targetContract tokenContract signer requiredAmount =
     bind (call (getAddress_r env) (GetAddress signer)) (\<lambda>owner.
     bind (call (allowance_r env) (Allowance tokenContract owner targetContract))
       (\<lambda>existingAllowance.
         if existingAllowance \<ge> requiredAmount then ret ()
         else
           bind (call (approve_r env) (Approve tokenContract targetContract MaxUint256)) (\<lambda>tx.
           bind (call (wait_r env) (TxWait tx)) (\<lambda>receipt. ret ()))))"

section \<open>Pool discovery and bootstrap\<close>

definition checkLiquidityPoolExists ::
  "env \<Rightarrow> address \<Rightarrow> address \<Rightarrow> address \<Rightarrow> bool io" where
  "checkLiquidityPoolExists env factoryAddress tokenA tokenB =
     try_catch
       (bind (call (getPair_r env) (GetPair ViaProvider factoryAddress tokenA tokenB))
          (\<lambda>pairAddress. ret (pairAddress \<noteq> AddressZero)))
       (\<lambda>error. ret False)"

definition createLiquidityPoolIfNeeded ::
  "env \<Rightarrow> address \<Rightarrow> address \<Rightarrow> address \<Rightarrow> address io" where
  "createLiquidityPoolIfNeeded env factoryAddress tokenA tokenB =
     try_catch
       (bind (call (getPair_r env) (GetPair ViaSigner factoryAddress tokenA tokenB))
          (\<lambda>pairAddress.
            if pairAddress \<noteq> AddressZero then ret pairAddress
            else
              bind (call (createPair_r env) (CreatePair factoryAddress tokenA tokenB)) (\<lambda>tx.
              bind (call (wait_r env) (TxWait tx)) (\<lambda>receipt.
              bind (call (getPair_r env) (GetPair ViaSigner factoryAddress tokenA tokenB))
                (\<lambda>newPairAddress. ret newPairAddress)))))
       (\<lambda>error. throw (Error ''Failed to create liquidity pool''))"

section \<open>Path selector\<close>

text \<open>
  The block of \<^verbatim>\<open>uniswapV2Swap\<close> headed "Determine the best path". Its inputs are
  the three probe results; \<^verbatim>\<open>WETH_ADDRESS\<close> is the intermediary.
\<close>

definition noViablePath :: error where
  "noViablePath = Error
     ''No viable swap path found and failed to create necessary liquidity pools. There is no liquidity for this pair.''"

definition selectPath ::
  "env \<Rightarrow> address \<Rightarrow> address \<Rightarrow> address \<Rightarrow> address \<Rightarrow> bool \<Rightarrow> bool \<Rightarrow> bool \<Rightarrow> address list io"
  where
  "selectPath env factoryAddress fromAsset toAsset WETH_ADDRESS
       directPoolExists fromWethPoolExists toWethPoolExists =
     (if directPoolExists then ret [fromAsset, toAsset]
      else if fromWethPoolExists \<and> toWethPoolExists then ret [fromAsset, WETH_ADDRESS, toAsset]
      else
        try_catch
          (if \<not> directPoolExists then
             try_catch
               (bind (createLiquidityPoolIfNeeded env factoryAddress fromAsset toAsset)
                  (\<lambda>p. ret [fromAsset, toAsset]))
               (\<lambda>error.
                  bind (if \<not> fromWethPoolExists
                        then bind (createLiquidityPoolIfNeeded env factoryAddress fromAsset WETH_ADDRESS)
                               (\<lambda>p. ret ())
                        else ret ()) (\<lambda>u1.
                  bind (if \<not> toWethPoolExists
                        then bind (createLiquidityPoolIfNeeded env factoryAddress WETH_ADDRESS toAsset)
                               (\<lambda>p. ret ())
                        else ret ()) (\<lambda>u2.
                  ret [fromAsset, WETH_ADDRESS, toAsset])))
           else ret [fromAsset, WETH_ADDRESS, toAsset])
          (\<lambda>error. throw noViablePath))"

section \<open>Settlement tracker for off-chain orders\<close>

definition sleep :: "nat \<Rightarrow> unit io" where
  "sleep ms = (\<lambda>log. (Inr (), log @ [Sleep ms]))"

text \<open>
  The \<^verbatim>\<open>while\<close> loop of \<^verbatim>\<open>waitForOrderStatus\<close>, entered with the current value of
  \<^verbatim>\<open>orderStatus\<close>. The loop has no bound, so the result is optional: \<open>None\<close> is a
  run that never returns.
\<close>

partial_function (option) pollWhileOpen ::
  "env \<Rightarrow> chainid \<Rightarrow> string \<Rightarrow> OrderStatus \<Rightarrow> event list
     \<Rightarrow> ((error + OrderStatus) \<times> event list) option" where
  "pollWhileOpen env chainId orderId orderStatus log =
     (if orderStatus = OPEN then
        (case bind (sleep 3000) (\<lambda>u. call (getOrder_r env) (GetOrder chainId orderId)) log of
           (Inl e, log') \<Rightarrow> Some (Inl e, log')
         | (Inr status, log') \<Rightarrow> pollWhileOpen env chainId orderId status log')
      else Some (Inr orderStatus, log))"

definition waitForOrderStatus ::
  "env \<Rightarrow> string \<Rightarrow> string \<Rightarrow> event list \<Rightarrow> ((error + OrderStatus) \<times> event list) option"
  where
  "waitForOrderStatus env orderId chain log =
     (let chainId = js_lookup supportedChains chain in
      if chainId = Undefined then Some (Inl (Error ''Unsupported chain''), log)
      else pollWhileOpen env chainId orderId OPEN log)"

section \<open>Amounts: decimal strings and ethers' unit conversion\<close>

text \<open>
  An \<^verbatim>\<open>ethers.BigNumber\<close> is an integer of any size, here an \<open>int\<close>; its
  \<^verbatim>\<open>toString()\<close> and \<^verbatim>\<open>BigNumber.from\<close> on that string are inverse, so a
  base-unit amount carried as such a string is carried as the \<open>int\<close>.
\<close>

definition isDigit :: "char \<Rightarrow> bool" where
  "isDigit c = (c \<in> set ''0123456789'')"

text \<open>The value of a digit character is its position among the digits, and conversely.\<close>

definition digitVal :: "char \<Rightarrow> nat" where
  "digitVal c = length (takeWhile (\<lambda>x. x \<noteq> c) ''0123456789'')"

definition digitChar :: "nat \<Rightarrow> char" where
  "digitChar n = ''0123456789'' ! (n mod 10)"

definition decVal :: "string \<Rightarrow> nat" where
  "decVal s = foldl (\<lambda>a c. 10 * a + digitVal c) 0 s"

function decDigits :: "nat \<Rightarrow> string" where
  "decDigits n = (if n < 10 then [digitChar n] else decDigits (n div 10) @ [digitChar (n mod 10)])"
  by pat_completeness auto
termination
  by (relation "measure id") auto

declare decDigits.simps [simp del]

text \<open>\<^verbatim>\<open>String.prototype.split\<close> on a one-character separator.\<close>

fun splitOn :: "char \<Rightarrow> string \<Rightarrow> string list" where
  "splitOn c [] = [[]]"
| "splitOn c (x # xs) =
     (if x = c then [] # splitOn c xs
      else (case splitOn c xs of [] \<Rightarrow> [[x]] | w # ws \<Rightarrow> (x # w) # ws))"

definition trimTrailingZeros :: "string \<Rightarrow> string" where
  "trimTrailingZeros s = rev (dropWhile (\<lambda>c. c = CHR ''0'') (rev s))"

text \<open>
  \<^verbatim>\<open>ethers.utils.parseUnits\<close> and \<^verbatim>\<open>formatUnits\<close> belong to the ethers
  library (version 5), not to this module. They are modelled after the library's
  \<^verbatim>\<open>parseFixed\<close> and \<^verbatim>\<open>formatFixed\<close>, check by check and in the library's
  order; an argument error of the library is a thrown value whose message is the
  library's reason (the library appends the offending argument to it). The precision
  argument is the result of the property read on the decimal table: a number, or a member
  of \<^verbatim>\<open>Object.prototype\<close>, which is no valid precision; an absent precision means 18.
\<close>

definition libError :: "string \<Rightarrow> error" where
  "libError reason = Thrown (Some reason) None"

definition matchesDecimal :: "string \<Rightarrow> bool" where
  "matchesDecimal s =
     (let t = (if take 1 s = ''-'' then drop 1 s else s)
      in t \<noteq> [] \<and> list_all (\<lambda>c. isDigit c \<or> c = CHR ''.'') t)"

definition parseUnits :: "string \<Rightarrow> nat jsprop \<Rightarrow> error + int" where
  "parseUnits value unitName =
     (case (case unitName of Undefined \<Rightarrow> Own 18 | u \<Rightarrow> u) of
        Own d \<Rightarrow>
          if d > 256 then Inl (libError ''invalid decimal size'')
          else if \<not> matchesDecimal value then Inl (libError ''invalid decimal value'')
          else
            let negative = (take 1 value = ''-'');
                v = (if negative then drop 1 value else value)
            in
              if v = ''.'' then Inl (libError ''missing value'')
              else
                let comps = splitOn (CHR ''.'') v in
                if length comps > 2 then Inl (libError ''too many decimal points'')
                else
                  let whole0 = (case comps of [] \<Rightarrow> [] | w # r \<Rightarrow> w);
                      fraction0 = (case comps of w # f # r \<Rightarrow> f | _ \<Rightarrow> []);
                      whole = (if whole0 = [] then ''0'' else whole0);
                      fraction1 = (if fraction0 = [] then ''0'' else fraction0);
                      fraction2 = trimTrailingZeros fraction1
                  in
                    if length fraction2 > d
                    then Inl (libError ''fractional component exceeds decimals'')
                    else
                      let fraction3 = (if fraction2 = [] then ''0'' else fraction2);
                          fraction = fraction3 @ replicate (d - length fraction3) (CHR ''0'');
                          wei = int (decVal whole) * 10 ^ d + int (decVal fraction)
                      in Inr (if negative then - wei else wei)
      | _ \<Rightarrow> Inl (libError ''invalid decimal size''))"

definition formatUnits :: "int \<Rightarrow> nat jsprop \<Rightarrow> error + string" where
  "formatUnits value unitName =
     (case (case unitName of Undefined \<Rightarrow> Own 18 | u \<Rightarrow> u) of
        Own d \<Rightarrow>
          if d > 256 then Inl (libError ''invalid decimal size'')
          else
            let negative = (value < 0);
                v = nat \<bar>value\<bar>;
                fraction0 = decDigits (v mod 10 ^ d);
                fraction1 = replicate (d - length fraction0) (CHR ''0'') @ fraction0;
                fraction = (if trimTrailingZeros fraction1 = [] then ''0''
                            else trimTrailingZeros fraction1);
                whole = decDigits (v div 10 ^ d);
                str = (if d = 0 then whole else whole @ ''.'' @ fraction)
            in Inr (if negative then ''-'' @ str else str)
      | _ \<Rightarrow> Inl (libError ''invalid decimal size''))"

section \<open>JavaScript numbers\<close>

text \<open>
  The two slippage computations use JavaScript numbers, IEEE 754 binary64. All values
  that occur are non-negative, finite and in the normal range, so a number is written
  \<open>Dbl m s\<close> for the dyadic rational \<open>m / 2\<^sup>s\<close>, and every arithmetic result is rounded
  to 53 significant bits, to nearest, ties to even.
\<close>

datatype double = Dbl nat nat

function bitlen :: "nat \<Rightarrow> nat" where
  "bitlen n = (if n = 0 then 0 else Suc (bitlen (n div 2)))"
  by pat_completeness auto
termination
  by (relation "measure id") auto

declare bitlen.simps [simp del]

definition round53 :: "nat \<Rightarrow> nat" where
  "round53 n =
     (if bitlen n \<le> 53 then n
      else
        let s = bitlen n - 53; q = n div 2 ^ s; r = n mod 2 ^ s; h = 2 ^ (s - 1)
        in (if r > h \<or> (r = h \<and> odd q) then q + 1 else q) * 2 ^ s)"

fun d_mul :: "double \<Rightarrow> double \<Rightarrow> double" where
  "d_mul (Dbl a s) (Dbl b t) = Dbl (round53 (a * b)) (s + t)"

text \<open>Subtraction, for a minuend that is not smaller than the subtrahend.\<close>

fun d_sub :: "double \<Rightarrow> double \<Rightarrow> double" where
  "d_sub (Dbl a s) (Dbl b t) = Dbl (round53 (a * 2 ^ t - b * 2 ^ s)) (s + t)"

fun Math_floor :: "double \<Rightarrow> nat" where
  "Math_floor (Dbl m s) = m div 2 ^ s"

text \<open>\<^verbatim>\<open>Math.round\<close> gives the nearest integer, a tie going up.\<close>

fun Math_round :: "double \<Rightarrow> nat" where
  "Math_round (Dbl m s) = (2 * m + 2 ^ s) div 2 ^ (s + 1)"

text \<open>\<^verbatim>\<open>Number(str)\<close> on an amount string.\<close>

fun Number :: "numstr \<Rightarrow> double" where
  "Number (Digits n) = Dbl (round53 n) 0"
| "Number (Exponent n) = Dbl (round53 n) 0"

text \<open>
  \<^verbatim>\<open>toString()\<close> on an integral number \<open>x\<close>. Below \<open>10\<^sup>2\<^sup>1\<close> the result is a
  digit string: the digits \<open>s\<close> followed by zeros, for the shortest \<open>s\<close> such that the
  string reads back as \<open>x\<close>, and among those the one nearest to \<open>x\<close> (the even
  \<open>s\<close> on a tie). \<open>shortestFrom x j\<close> looks for such a string with \<open>j\<close> trailing
  zeros, then with fewer: the two candidates are the multiples of \<open>10\<^sup>j\<close> around
  \<open>x\<close>. From \<open>10\<^sup>2\<^sup>1\<close> on the result is in exponent notation.
\<close>

fun shortestFrom :: "nat \<Rightarrow> nat \<Rightarrow> nat" where
  "shortestFrom x 0 = x"
| "shortestFrom x (Suc j) =
     (let p = 10 ^ Suc j; lo = (x div p) * p; hi = lo + p
      in if round53 lo = x \<and> round53 hi = x then
           (if x - lo < hi - x then lo
            else if hi - x < x - lo then hi
            else if even (lo div p) then lo else hi)
         else if round53 lo = x then lo
         else if round53 hi = x then hi
         else shortestFrom x j)"

declare shortestFrom.simps(2) [simp del]

definition toString :: "nat \<Rightarrow> numstr" where
  "toString n = (if n < 10 ^ 21 then Digits (shortestFrom n 21) else Exponent n)"

text \<open>The literal \<^verbatim>\<open>0.05\<close>: the binary64 number nearest to one twentieth.\<close>

definition slippage :: double where
  "slippage = Dbl 3602879701896397 56"

text \<open>
  Line 518 of the swap executor:
  \<^verbatim>\<open>amounts[outputIndex].mul(BigNumber.from(100 - Math.floor(slippage * 100))).div(BigNumber.from(100))\<close>,
  on an amount decoded from a \<^verbatim>\<open>uint\<close>.
\<close>

definition amountOutMin :: "nat \<Rightarrow> nat" where
  "amountOutMin expected =
     (expected * (100 - Math_floor (d_mul slippage (Dbl 100 0)))) div 100"

text \<open>
  Lines 278 to 280 of the order executor:
  \<^verbatim>\<open>Math.round(Number(quote.buyAmount) * (1 - slippage)).toString()\<close>.
\<close>

definition slippageBuyAmount :: "numstr \<Rightarrow> numstr" where
  "slippageBuyAmount quoted =
     toString (Math_round (d_mul (Number quoted) (d_sub (Dbl 1 0) slippage)))"

section \<open>Transfer executor\<close>

definition sendTransaction ::
  "env \<Rightarrow> wallet list \<Rightarrow> string \<Rightarrow> string \<Rightarrow> string \<Rightarrow> address \<Rightarrow> tx io" where
  "sendTransaction env wallets receiver amount chain erc20ContractAddress =
     (case wallets of
        [] \<Rightarrow> throw (Error ''No wallet is connected!'')
      | w # ws \<Rightarrow>
          let chainId = js_lookup supportedChains chain in
          if chainId = Undefined then throw (Error ''Unsupported chain'')
          else
            bind (call (switchChain_r env) (SwitchChain w chainId)) (\<lambda>u.
            bind (call (getEthersProvider_r env) (GetEthersProvider w)) (\<lambda>provider.
              case num_lookup decimalConverter chainId of
                None \<Rightarrow> throw (Error (''No decimals for chain: '' @ chain))
              | Some chainDecimals \<Rightarrow>
                  let decimals = js_lookup chainDecimals erc20ContractAddress in
                  if decimals = Undefined
                  then throw (Error (''No decimals for token: '' @ erc20ContractAddress))
                  else
                    bind (lift (parseUnits amount decimals)) (\<lambda>amount_decimals.
                    bind (if \<not> isAddress env receiver then
                            bind (call (resolveName_r env) (ResolveName receiver))
                              (\<lambda>resolvedName.
                                 case resolvedName of
                                   None \<Rightarrow> throw (Error ''Could not resolve ENS name'')
                                 | Some a \<Rightarrow> ret a)
                          else ret receiver) (\<lambda>receiverAddress.
                    call (transfer_r env)
                      (Transfer erc20ContractAddress receiverAddress amount_decimals))))))"

section \<open>Off-chain order executor\<close>

definition noLiquidity :: "string option \<Rightarrow> error" where
  "noLiquidity description =
     Error (''NoLiquidity: '' @
       (case description of
          None \<Rightarrow> ''No route found between these tokens''
        | Some d \<Rightarrow> if d = [] then ''No route found between these tokens'' else d))"

definition sendOrder ::
  "env \<Rightarrow> wallet list \<Rightarrow> string \<Rightarrow> address \<Rightarrow> address \<Rightarrow> string \<Rightarrow> string io" where
  "sendOrder env wallets chain fromAsset toAsset amount =
     (let chainId = js_lookup supportedChains chain in
      if chainId = Undefined then throw (Error ''Unsupported chain'')
      else
        case wallets of
          [] \<Rightarrow> throw (Error ''No wallet is connected!'')
        | w # ws \<Rightarrow>
            bind (call (switchChain_r env) (SwitchChain w chainId)) (\<lambda>u.
            bind (call (getEthersProvider_r env) (GetEthersProvider w)) (\<lambda>provider.
            bind (call (getAddress_r env) (GetAddress w)) (\<lambda>fromAddress.
              case num_lookup decimalConverter chainId of
                None \<Rightarrow> throw (Error (''No decimals for chain: '' @ chain))
              | Some chainDecimals \<Rightarrow>
                  let decimals = js_lookup chainDecimals fromAsset in
                  if decimals = Undefined
                  then throw (Error (''No decimals for token: '' @ fromAsset))
                  else
                    bind (lift (parseUnits amount decimals)) (\<lambda>amountDecimals.
                    let quoteRequest =
                          \<lparr>qr_sellToken = fromAsset, qr_buyToken = toAsset,
                           qr_from = fromAddress, qr_receiver = fromAddress,
                           qr_sellAmountBeforeFee = amountDecimals\<rparr>;
                        vaultAddr = num_lookup (COW_PROTOCOL_VAULT_RELAYER_ADDRESS env) chainId
                    in
                    bind (checkAllowanceAndApproveIfNecessary env vaultAddr fromAsset w
                            amountDecimals) (\<lambda>u2.
                    try_catch
                      (bind (call (getQuote_r env) (GetQuote chainId quoteRequest))
                         (\<lambda>(quote0, quoteId).
                           let quote = quote0\<lparr>q_feeAmount := 0,
                                              q_sellAmount := amountDecimals,
                                              q_buyAmount := slippageBuyAmount (q_buyAmount quote0)\<rparr>
                           in
                           bind (call (signOrder_r env)
                                   (SignOrder (quote\<lparr>q_receiver := Some fromAddress\<rparr>) chainId w))
                             (\<lambda>signature.
                               call (sendOrder_r env)
                                 (PostOrder chainId
                                    \<lparr>o_quote = quote, o_signature = signature,
                                     o_quoteId = quoteId, o_from = fromAddress\<rparr>))))
                      (\<lambda>error.
                         case body error of
                           Some (errorType, description) \<Rightarrow>
                             if errorType = ''NoLiquidity'' then throw (noLiquidity description)
                             else throw error
                         | None \<Rightarrow> throw error)))))))"

section \<open>AMM swap executor\<close>

definition sepoliaWETH :: address where
  "sepoliaWETH = ''0x7b79995e5f793A07Bc00c21412e50Ecae098E7f9''"

definition mainnetWETH :: address where
  "mainnetWETH = ''0xC02aaA39b223FE8D0A0e5C4F27eAD9083C756Cc2''"

text \<open>\<^verbatim>\<open>chainDecimals[toAsset] || 18\<close>: an absent or zero precision is replaced by 18.\<close>

definition or18 :: "nat jsprop \<Rightarrow> nat jsprop" where
  "or18 p = (case p of Undefined \<Rightarrow> Own 18 | Own d \<Rightarrow> (if d = 0 then Own 18 else Own d)
                     | Inherited k \<Rightarrow> Inherited k)"

text \<open>
  The engine's \<^verbatim>\<open>TypeError\<close> for \<^verbatim>\<open>amounts[outputIndex].mul\<close> on a missing array
  element (the wording is V8's).
\<close>

definition undefinedMul :: error where
  "undefinedMul = Thrown (Some ''Cannot read properties of undefined (reading 'mul')'') None"

definition swapFailure :: "error \<Rightarrow> error" where
  "swapFailure error =
     (if (case message error of
            None \<Rightarrow> False
          | Some m \<Rightarrow> m \<noteq> [] \<and> sublist ''INSUFFICIENT_OUTPUT_AMOUNT'' m)
      then Error ''Insufficient liquidity for this swap pair''
      else Error (''Swap failed: '' @ (case message error of None \<Rightarrow> ''undefined'' | Some m \<Rightarrow> m)))"

definition uniswapV2Swap ::
  "env \<Rightarrow> wallet list \<Rightarrow> string \<Rightarrow> address \<Rightarrow> address \<Rightarrow> string \<Rightarrow> tx io" where
  "uniswapV2Swap env wallets chain fromAsset toAsset amount =
     (case wallets of
        [] \<Rightarrow> throw (Error ''No wallet is connected!'')
      | w # ws \<Rightarrow>
          let chainId = js_lookup supportedChains chain in
          if chainId = Undefined then throw (Error (''Unsupported chain: '' @ chain))
          else
            case num_lookup UNISWAP_V2_ROUTER chainId of
              None \<Rightarrow> throw (Error (''No Uniswap Router found for chain: '' @ chain))
            | Some routerAddress \<Rightarrow>
            case num_lookup UNISWAP_V2_FACTORY chainId of
              None \<Rightarrow> throw (Error (''No Uniswap Factory found for chain: '' @ chain))
            | Some factoryAddress \<Rightarrow>
            bind (call (switchChain_r env) (SwitchChain w chainId)) (\<lambda>u.
            bind (call (getEthersProvider_r env) (GetEthersProvider w)) (\<lambda>provider.
            bind (call (getAddress_r env) (GetAddress w)) (\<lambda>fromAddress.
              case num_lookup decimalConverter chainId of
                None \<Rightarrow> throw (Error (''No decimals for chain: '' @ chain))
              | Some chainDecimals \<Rightarrow>
                  let decimals = js_lookup chainDecimals fromAsset in
                  if decimals = Undefined
                  then throw (Error (''No decimals for token: '' @ fromAsset))
                  else
                    bind (lift (parseUnits amount decimals)) (\<lambda>amountDecimals.
                    bind (checkAllowanceAndApproveIfNecessary env (Some routerAddress) fromAsset w
                            amountDecimals) (\<lambda>u2.
                    let WETH_ADDRESS = (if chainId = Own 11155111 then sepoliaWETH else mainnetWETH)
                    in
                    bind (checkLiquidityPoolExists env factoryAddress fromAsset toAsset)
                      (\<lambda>directPoolExists.
                    bind (checkLiquidityPoolExists env factoryAddress fromAsset WETH_ADDRESS)
                      (\<lambda>fromWethPoolExists.
                    bind (checkLiquidityPoolExists env factoryAddress WETH_ADDRESS toAsset)
                      (\<lambda>toWethPoolExists.
                    bind (selectPath env factoryAddress fromAsset toAsset WETH_ADDRESS
                            directPoolExists fromWethPoolExists toWethPoolExists) (\<lambda>path.
                    bind (call (\<lambda>log. Inr (now_r env log)) DateNow) (\<lambda>now.
                    let deadline = now div 1000 + 60 * 20 in
                    try_catch
                      (bind (call (getAmountsOut_r env)
                               (GetAmountsOut routerAddress amountDecimals path)) (\<lambda>amounts.
                         let outputIndex = length path - 1 in
                         if outputIndex < length amounts then
                           let minOut = amountOutMin (amounts ! outputIndex) in
                           bind (lift (formatUnits (int (amounts ! outputIndex))
                                         (or18 (js_lookup chainDecimals toAsset)))) (\<lambda>shown1.
                           bind (lift (formatUnits (int minOut)
                                         (or18 (js_lookup chainDecimals toAsset)))) (\<lambda>shown2.
                           call (swap_r env)
                             (SwapExactTokensForTokens routerAddress amountDecimals minOut path
                                fromAddress deadline 500000)))
                         else throw undefinedMul))
                      (\<lambda>error. throw (swapFailure error)))))))))))))"

section \<open>Notions used to state the properties\<close>

text \<open>
  A hop pool is ready after the fallback step for it: it was found by the probe, or
  \<^verbatim>\<open>createLiquidityPoolIfNeeded\<close> returned for it. The value is the log afterwards.
\<close>

definition hopReady ::
  "env \<Rightarrow> address \<Rightarrow> address \<Rightarrow> address \<Rightarrow> bool \<Rightarrow> event list \<Rightarrow> event list option" where
  "hopReady env factoryAddress tokenA tokenB poolExists log =
     (if poolExists then Some log
      else case createLiquidityPoolIfNeeded env factoryAddress tokenA tokenB log of
             (Inr p, log') \<Rightarrow> Some log'
           | (Inl e, log') \<Rightarrow> None)"

text \<open>The events of \<open>n\<close> rounds of the tracker's loop.\<close>

definition polls :: "chainid \<Rightarrow> string \<Rightarrow> nat \<Rightarrow> event list" where
  "polls chainId orderId n = concat (replicate n [Sleep 3000, GetOrder chainId orderId])"

text \<open>
  The number an amount string denotes, read off the string itself: an optional minus sign,
  the digits before the point and the digits after it. The string denotes
  \<open>amountDigits / 10 ^ amountScale\<close>. A string is an amount when both parts consist of
  digits and at least one digit is present.
\<close>

definition amountNegative :: "string \<Rightarrow> bool" where
  "amountNegative s = (take 1 s = ''-'')"

definition amountBody :: "string \<Rightarrow> string" where
  "amountBody s = (if amountNegative s then drop 1 s else s)"

definition wholePart :: "string \<Rightarrow> string" where
  "wholePart s = takeWhile (\<lambda>c. c \<noteq> CHR ''.'') (amountBody s)"

definition fractionPart :: "string \<Rightarrow> string" where
  "fractionPart s = drop 1 (dropWhile (\<lambda>c. c \<noteq> CHR ''.'') (amountBody s))"

definition isAmount :: "string \<Rightarrow> bool" where
  "isAmount s =
     (list_all isDigit (wholePart s) \<and> list_all isDigit (fractionPart s)
      \<and> (wholePart s \<noteq> [] \<or> fractionPart s \<noteq> []))"

definition amountDigits :: "string \<Rightarrow> int" where
  "amountDigits s =
     (if amountNegative s then - int (decVal (wholePart s @ fractionPart s))
      else int (decVal (wholePart s @ fractionPart s)))"

definition amountScale :: "string \<Rightarrow> nat" where
  "amountScale s = length (fractionPart s)"

section \<open>Example worlds\<close>

text \<open>
  A world in which every collaborator answers: the signer's address is fixed, an allowance
  is zero until some transaction has been submitted, a pair is registered once its
  creation has been submitted, pairs can be created only with the token \<open>W\<close>, and the
  venue reports an order open at the first two polls and fulfilled from the third on.
\<close>

fun isPoll :: "event \<Rightarrow> bool" where
  "isPoll (GetOrder c i) = True"
| "isPoll _ = False"

definition exampleQuote :: quote where
  "exampleQuote =
     \<lparr>q_sellToken = ''0x94a9d9ac8a22534e3faca9f4e7f2e2cf85d5e4c8'', q_buyToken = ''B'',
      q_receiver = Some ''0xOwner'', q_sellAmount = 99000000,
      q_buyAmount = Digits 200000000, q_feeAmount = 1000000, q_validTo = 1700001800,
      q_appData = ''0x00'', q_partiallyFillable = False\<rparr>"

definition exampleWorld :: env where
  "exampleWorld =
     \<lparr>switchChain_r = (\<lambda>log. Inr ()),
      getEthersProvider_r = (\<lambda>log. Inr ()),
      getAddress_r = (\<lambda>log. Inr ''0xOwner''),
      allowance_r = (\<lambda>log. Inr (if list_ex is_tx log then MaxUint256 else 0)),
      approve_r = (\<lambda>log. Inr ''0xApproveTx''),
      wait_r = (\<lambda>log. Inr 1),
      getPair_r = (\<lambda>log. case last log of
                            GetPair v f a b \<Rightarrow>
                              Inr (if CreatePair f a b \<in> set log then ''0xPair'' else AddressZero)
                          | _ \<Rightarrow> Inr AddressZero),
      createPair_r = (\<lambda>log. case last log of
                               CreatePair f a b \<Rightarrow>
                                 if a = ''W'' \<or> b = ''W'' then Inr ''0xCreateTx''
                                 else Inl (Thrown (Some ''execution reverted'') None)
                             | _ \<Rightarrow> Inl (Thrown None None)),
      getOrder_r = (\<lambda>log. Inr (if length (filter isPoll log) < 3 then OPEN else FULFILLED)),
      now_r = (\<lambda>log. 1700000000000),
      getAmountsOut_r = (\<lambda>log. Inr [100000000, 200000000]),
      swap_r = (\<lambda>log. Inr ''0xSwapTx''),
      resolveName_r = (\<lambda>log. Inr None),
      transfer_r = (\<lambda>log. Inr ''0xTransferTx''),
      getQuote_r = (\<lambda>log. Inr (exampleQuote, Some 7)),
      signOrder_r = (\<lambda>log. Inr ''0xSignature''),
      sendOrder_r = (\<lambda>log. Inr ''0xOrderUid''),
      isAddress = (\<lambda>s. take 2 s = ''0x''),
      COW_PROTOCOL_VAULT_RELAYER_ADDRESS =
        [(1, ''0xC92E8bdf79f0507f65a392b0ab4667716BFE0110''),
         (11155111, ''0xC92E8bdf79f0507f65a392b0ab4667716BFE0110'')]\<rparr>"

text \<open>
  The order in which two kinds of call first occur in a log, and the log of one run of the
  order executor in the example world, used below.
\<close>

fun isAllowanceRead :: "event \<Rightarrow> bool" where
  "isAllowanceRead (Allowance t ow s) = True"
| "isAllowanceRead _ = False"

fun isQuoteRequest :: "event \<Rightarrow> bool" where
  "isQuoteRequest (GetQuote c r) = True"
| "isQuoteRequest _ = False"

definition firstIndex :: "(event \<Rightarrow> bool) \<Rightarrow> event list \<Rightarrow> nat" where
  "firstIndex P log = length (takeWhile (\<lambda>e. \<not> P e) log)"

definition exampleOrderLog :: "event list" where
  "exampleOrderLog =
     [SwitchChain 7 (Own 11155111), GetEthersProvider 7, GetAddress 7, GetAddress 7,
      Allowance ''0x94a9d9ac8a22534e3faca9f4e7f2e2cf85d5e4c8'' ''0xOwner''
        (Some ''0xC92E8bdf79f0507f65a392b0ab4667716BFE0110''),
      Approve ''0x94a9d9ac8a22534e3faca9f4e7f2e2cf85d5e4c8''
        (Some ''0xC92E8bdf79f0507f65a392b0ab4667716BFE0110'') MaxUint256,
      TxWait ''0xApproveTx'',
      GetQuote (Own 11155111)
        \<lparr>qr_sellToken = ''0x94a9d9ac8a22534e3faca9f4e7f2e2cf85d5e4c8'', qr_buyToken = ''B'',
         qr_from = ''0xOwner'', qr_receiver = ''0xOwner'',
         qr_sellAmountBeforeFee = 100000000\<rparr>,
      SignOrder
        (exampleQuote\<lparr>q_feeAmount := 0, q_sellAmount := 100000000,
                       q_buyAmount := Digits 190000000, q_receiver := Some ''0xOwner''\<rparr>)
        (Own 11155111) 7,
      PostOrder (Own 11155111)
        \<lparr>o_quote = exampleQuote\<lparr>q_feeAmount := 0, q_sellAmount := 100000000,
                                    q_buyAmount := Digits 190000000\<rparr>,
         o_signature = ''0xSignature'', o_quoteId = Some 7, o_from = ''0xOwner''\<rparr>]"

section \<open>Properties\<close>

lemmas io_defs = ret_def throw_def bind_def try_catch_def call_def lift_def

subsection \<open>Allowance manager\<close>

text \<open>
  Claim C5. Once the owner and the current allowance have been read:
  if the allowance covers the required amount, the call returns after these two reads
  and submits no transaction, so a second call made when the allowance suffices adds
  none either; otherwise it submits exactly one transaction, the approval of
  \<open>MaxUint256\<close> for the spender, and it returns only after waiting for that
  transaction to be mined.
\<close>

theorem ensureAllowance_idempotent:
  assumes "getAddress_r env (log @ [GetAddress signer]) = Inr owner"
    and "allowance_r env (log @ [GetAddress signer, Allowance token owner target]) = Inr a"
  shows "(required \<le> a \<longrightarrow>
            checkAllowanceAndApproveIfNecessary env target token signer required log
              = (Inr (), log @ [GetAddress signer, Allowance token owner target])
          \<and> transactions (snd (checkAllowanceAndApproveIfNecessary env target token signer required log))
              = transactions log)
       \<and> (a < required \<longrightarrow>
            transactions (snd (checkAllowanceAndApproveIfNecessary env target token signer required log))
              = transactions log @ [Approve token target MaxUint256]
          \<and> (\<forall>u. fst (checkAllowanceAndApproveIfNecessary env target token signer required log) = Inr u \<longrightarrow>
                (\<exists>h blk. approve_r env (log @ [GetAddress signer, Allowance token owner target,
                                Approve token target MaxUint256]) = Inr h
                   \<and> wait_r env (log @ [GetAddress signer, Allowance token owner target,
                                Approve token target MaxUint256, TxWait h]) = Inr blk
                   \<and> snd (checkAllowanceAndApproveIfNecessary env target token signer required log)
                        = log @ [GetAddress signer, Allowance token owner target,
                                Approve token target MaxUint256, TxWait h])))"
  using assms
  unfolding checkAllowanceAndApproveIfNecessary_def io_defs
  by (auto simp: transactions_def split: sum.splits)

theorem ensureAllowance_idempotent_witness:
  "checkAllowanceAndApproveIfNecessary exampleWorld (Some ''S'') ''T'' 7 100
       [Approve ''T'' (Some ''S'') MaxUint256, TxWait ''0xApproveTx'']
     = (Inr (), [Approve ''T'' (Some ''S'') MaxUint256, TxWait ''0xApproveTx'',
                 GetAddress 7, Allowance ''T'' ''0xOwner'' (Some ''S'')])
   \<and> transactions (snd (checkAllowanceAndApproveIfNecessary exampleWorld (Some ''S'') ''T'' 7 100 []))
       = [Approve ''T'' (Some ''S'') MaxUint256]
   \<and> snd (checkAllowanceAndApproveIfNecessary exampleWorld (Some ''S'') ''T'' 7 100 [])
       = [GetAddress 7, Allowance ''T'' ''0xOwner'' (Some ''S''),
          Approve ''T'' (Some ''S'') MaxUint256, TxWait ''0xApproveTx'']"
proof -
  let ?l = "[Approve ''T'' (Some ''S'') MaxUint256, TxWait ''0xApproveTx'']"
  have o1: "getAddress_r exampleWorld (?l @ [GetAddress 7]) = Inr ''0xOwner''"
    by (simp add: exampleWorld_def)
  have a1: "allowance_r exampleWorld (?l @ [GetAddress 7, Allowance ''T'' ''0xOwner'' (Some ''S'')]) = Inr MaxUint256"
    by (simp add: exampleWorld_def)
  have o2: "getAddress_r exampleWorld ([] @ [GetAddress 7]) = Inr ''0xOwner''"
    by (simp add: exampleWorld_def)
  have a2: "allowance_r exampleWorld ([] @ [GetAddress 7, Allowance ''T'' ''0xOwner'' (Some ''S'')]) = Inr 0"
    by (simp add: exampleWorld_def)
  have r: "fst (checkAllowanceAndApproveIfNecessary exampleWorld (Some ''S'') ''T'' 7 100 []) = Inr ()"
    by (simp add: checkAllowanceAndApproveIfNecessary_def io_defs exampleWorld_def)
  have le: "(100::int) \<le> MaxUint256" by (simp add: MaxUint256_def)
  from ensureAllowance_idempotent[OF o1 a1, of 100] le
    ensureAllowance_idempotent[OF o2 a2, of 100] r
  show ?thesis
    by (auto simp: transactions_def exampleWorld_def)
qed

subsection \<open>Pool discovery\<close>

text \<open>
  Claim C7. The probe always returns a boolean and never throws: the boolean is true
  exactly when the registry answered with a pair address other than the zero address,
  and false when the registry call failed.
\<close>

theorem probe_never_throws:
  "checkLiquidityPoolExists env factory tokenA tokenB log =
     (Inr (case getPair_r env (log @ [GetPair ViaProvider factory tokenA tokenB]) of
             Inl e \<Rightarrow> False
           | Inr pairAddress \<Rightarrow> pairAddress \<noteq> AddressZero),
      log @ [GetPair ViaProvider factory tokenA tokenB])"
  unfolding checkLiquidityPoolExists_def io_defs
  by (auto split: sum.splits)

theorem probe_never_throws_witness:
  "checkLiquidityPoolExists exampleWorld ''F'' ''A'' ''B'' []
     = (Inr False, [GetPair ViaProvider ''F'' ''A'' ''B''])
   \<and> checkLiquidityPoolExists
         (exampleWorld\<lparr>getPair_r := (\<lambda>log. Inl (Thrown (Some ''network error'') None))\<rparr>)
         ''F'' ''A'' ''B'' []
     = (Inr False, [GetPair ViaProvider ''F'' ''A'' ''B''])
   \<and> checkLiquidityPoolExists (exampleWorld\<lparr>getPair_r := (\<lambda>log. Inr ''0xPair'')\<rparr>)
         ''F'' ''A'' ''B'' []
     = (Inr True, [GetPair ViaProvider ''F'' ''A'' ''B''])"
  using probe_never_throws[of exampleWorld "''F''" "''A''" "''B''" "[]"]
    probe_never_throws[of "exampleWorld\<lparr>getPair_r := (\<lambda>log. Inl (Thrown (Some ''network error'') None))\<rparr>"
      "''F''" "''A''" "''B''" "[]"]
    probe_never_throws[of "exampleWorld\<lparr>getPair_r := (\<lambda>log. Inr ''0xPair'')\<rparr>"
      "''F''" "''A''" "''B''" "[]"]
  by (simp add: exampleWorld_def AddressZero_def)

subsection \<open>Path selector\<close>

lemma create_log:
  "\<exists>rest. snd (createLiquidityPoolIfNeeded env f x y log) = log @ GetPair ViaSigner f x y # rest"
  unfolding createLiquidityPoolIfNeeded_def io_defs
  by (simp split: sum.splits prod.splits)

lemma create_prefix: "prefix l (snd (createLiquidityPoolIfNeeded env f x y l))"
  using create_log[of env f x y l] by (auto simp: prefix_def)

lemma hopReady_prefix: "hopReady env f x y ex l = Some l' \<Longrightarrow> prefix l l'"
  using create_prefix[of l env f x y]
  by (auto simp: hopReady_def split: if_splits prod.splits sum.splits)

lemma selectPath_direct:
  "selectPath env f fromAsset toAsset weth True a b log = (Inr [fromAsset, toAsset], log)"
  by (simp add: selectPath_def ret_def)

lemma selectPath_two_hop:
  "selectPath env f fromAsset toAsset weth False True True log = (Inr [fromAsset, weth, toAsset], log)"
  by (simp add: selectPath_def ret_def)

lemma selectPath_bootstrap_ok:
  assumes "\<not> (a \<and> b)" "createLiquidityPoolIfNeeded env f fromAsset toAsset log = (Inr p, log1)"
  shows "selectPath env f fromAsset toAsset weth False a b log = (Inr [fromAsset, toAsset], log1)"
  using assms by (simp add: selectPath_def io_defs)

lemma selectPath_fallback:
  assumes "\<not> (a \<and> b)" "createLiquidityPoolIfNeeded env f fromAsset toAsset log = (Inl e, log1)"
  shows "selectPath env f fromAsset toAsset weth False a b log =
     (case hopReady env f fromAsset weth a log1 of
        None \<Rightarrow> (Inl noViablePath, snd (createLiquidityPoolIfNeeded env f fromAsset weth log1))
      | Some log2 \<Rightarrow>
         (case hopReady env f weth toAsset b log2 of
            None \<Rightarrow> (Inl noViablePath, snd (createLiquidityPoolIfNeeded env f weth toAsset log2))
          | Some log3 \<Rightarrow> (Inr [fromAsset, weth, toAsset], log3)))"
proof (cases a)
  case True
  with assms have nb: "\<not> b" by simp
  obtain r2 l2 where c2: "createLiquidityPoolIfNeeded env f weth toAsset log1 = (r2, l2)"
    by (cases "createLiquidityPoolIfNeeded env f weth toAsset log1")
  show ?thesis using True nb assms(2) c2
    by (cases r2) (simp_all add: selectPath_def hopReady_def io_defs)
next
  case False
  obtain r1 l1 where c1: "createLiquidityPoolIfNeeded env f fromAsset weth log1 = (r1, l1)"
    by (cases "createLiquidityPoolIfNeeded env f fromAsset weth log1")
  show ?thesis
  proof (cases r1)
    case (Inl e1)
    then show ?thesis using False assms(2) c1
      by (simp add: selectPath_def hopReady_def io_defs)
  next
    case (Inr p1)
    obtain r2 l2 where c2: "createLiquidityPoolIfNeeded env f weth toAsset l1 = (r2, l2)"
      by (cases "createLiquidityPoolIfNeeded env f weth toAsset l1")
    show ?thesis using False assms(2) c1 c2 Inr
      by (cases r2; cases b) (simp_all add: selectPath_def hopReady_def io_defs)
  qed
qed

lemma example_create_direct:
  "createLiquidityPoolIfNeeded exampleWorld ''F'' ''A'' ''B'' [] =
     (Inl (Error ''Failed to create liquidity pool''),
      [GetPair ViaSigner ''F'' ''A'' ''B'', CreatePair ''F'' ''A'' ''B''])"
  by (simp add: createLiquidityPoolIfNeeded_def io_defs exampleWorld_def AddressZero_def)

lemma example_create_hop:
  "CreatePair ''F'' x y \<notin> set l \<Longrightarrow> x = ''W'' \<or> y = ''W'' \<Longrightarrow>
   createLiquidityPoolIfNeeded exampleWorld ''F'' x y l =
     (Inr ''0xPair'',
      l @ [GetPair ViaSigner ''F'' x y, CreatePair ''F'' x y, TxWait ''0xCreateTx'',
           GetPair ViaSigner ''F'' x y])"
  by (auto simp add: createLiquidityPoolIfNeeded_def io_defs exampleWorld_def AddressZero_def)

lemma createLiquidityPoolIfNeeded_run:
  "createLiquidityPoolIfNeeded env f x y log =
     (case getPair_r env (log @ [GetPair ViaSigner f x y]) of
        Inl e \<Rightarrow> (Inl (Error ''Failed to create liquidity pool''), log @ [GetPair ViaSigner f x y])
      | Inr pairAddress \<Rightarrow>
          if pairAddress \<noteq> AddressZero then (Inr pairAddress, log @ [GetPair ViaSigner f x y])
          else
            (case createPair_r env (log @ [GetPair ViaSigner f x y, CreatePair f x y]) of
               Inl e \<Rightarrow> (Inl (Error ''Failed to create liquidity pool''),
                         log @ [GetPair ViaSigner f x y, CreatePair f x y])
             | Inr tx \<Rightarrow>
                 (case wait_r env (log @ [GetPair ViaSigner f x y, CreatePair f x y, TxWait tx]) of
                    Inl e \<Rightarrow> (Inl (Error ''Failed to create liquidity pool''),
                              log @ [GetPair ViaSigner f x y, CreatePair f x y, TxWait tx])
                  | Inr receipt \<Rightarrow>
                      (case getPair_r env (log @ [GetPair ViaSigner f x y, CreatePair f x y,
                                                  TxWait tx, GetPair ViaSigner f x y]) of
                         Inl e \<Rightarrow> (Inl (Error ''Failed to create liquidity pool''),
                                   log @ [GetPair ViaSigner f x y, CreatePair f x y, TxWait tx,
                                          GetPair ViaSigner f x y])
                       | Inr newPairAddress \<Rightarrow>
                           (Inr newPairAddress,
                            log @ [GetPair ViaSigner f x y, CreatePair f x y, TxWait tx,
                                   GetPair ViaSigner f x y])))))"
  unfolding createLiquidityPoolIfNeeded_def io_defs
  by (simp split: sum.splits)

lemma create_submits:
  assumes "getPair_r env (log @ [GetPair ViaSigner f x y]) = Inr AddressZero"
  shows "\<exists>rest. snd (createLiquidityPoolIfNeeded env f x y log)
                  = log @ GetPair ViaSigner f x y # CreatePair f x y # rest"
  using assms by (simp add: createLiquidityPoolIfNeeded_run split: sum.splits)

text \<open>
  Claim C1. The selected path is determined by the three probe results. If the direct pool
  was found the path is \<open>[from, to]\<close>; otherwise, if both pools with the intermediary
  were found, it is \<open>[from, intermediary, to]\<close>; in both cases no call is made, so no
  creation transaction is issued. Otherwise the selector first runs
  \<^verbatim>\<open>createLiquidityPoolIfNeeded\<close> for the direct pair, which reads the registry
  through the signer and, when the registry has no pair, submits the creation. If that
  run returns, the path is \<open>[from, to]\<close>. Only if it fails does the selector go on to the
  intermediary pools, and it fails, with the no-viable-route error, only after the
  creation of a missing intermediary pool has been run and has failed as well.
\<close>

theorem path_selection_by_probes:
  "(d \<longrightarrow> selectPath env f fromAsset toAsset weth d a b log = (Inr [fromAsset, toAsset], log))
   \<and> (\<not> d \<and> a \<and> b \<longrightarrow>
        selectPath env f fromAsset toAsset weth d a b log = (Inr [fromAsset, weth, toAsset], log))
   \<and> (\<not> d \<and> \<not> (a \<and> b) \<longrightarrow>
        selectPath env f fromAsset toAsset weth d a b log =
          (case createLiquidityPoolIfNeeded env f fromAsset toAsset log of
             (Inr p, log1) \<Rightarrow> (Inr [fromAsset, toAsset], log1)
           | (Inl e, log1) \<Rightarrow>
               (case hopReady env f fromAsset weth a log1 of
                  None \<Rightarrow>
                    (Inl noViablePath,
                     snd (createLiquidityPoolIfNeeded env f fromAsset weth log1))
                | Some log2 \<Rightarrow>
                    (case hopReady env f weth toAsset b log2 of
                       None \<Rightarrow>
                         (Inl noViablePath,
                          snd (createLiquidityPoolIfNeeded env f weth toAsset log2))
                     | Some log3 \<Rightarrow> (Inr [fromAsset, weth, toAsset], log3))))
        \<and> (\<exists>rest. snd (selectPath env f fromAsset toAsset weth d a b log)
                    = snd (createLiquidityPoolIfNeeded env f fromAsset toAsset log) @ rest)
        \<and> (\<exists>rest. snd (createLiquidityPoolIfNeeded env f fromAsset toAsset log)
                    = log @ GetPair ViaSigner f fromAsset toAsset # rest)
        \<and> (getPair_r env (log @ [GetPair ViaSigner f fromAsset toAsset]) = Inr AddressZero \<longrightarrow>
             (\<exists>rest. snd (createLiquidityPoolIfNeeded env f fromAsset toAsset log)
                       = log @ GetPair ViaSigner f fromAsset toAsset
                             # CreatePair f fromAsset toAsset # rest)))"
proof (intro conjI impI)
  assume d then show "selectPath env f fromAsset toAsset weth d a b log = (Inr [fromAsset, toAsset], log)"
    by (simp add: selectPath_direct)
next
  assume "\<not> d \<and> a \<and> b"
  then show "selectPath env f fromAsset toAsset weth d a b log = (Inr [fromAsset, weth, toAsset], log)"
    by (simp add: selectPath_two_hop)
next
  assume h: "\<not> d \<and> \<not> (a \<and> b)"
  then have d: "d = False" and nab: "\<not> (a \<and> b)" by simp_all
  obtain r0 l0 where c0: "createLiquidityPoolIfNeeded env f fromAsset toAsset log = (r0, l0)"
    by (cases "createLiquidityPoolIfNeeded env f fromAsset toAsset log")
  show eq: "selectPath env f fromAsset toAsset weth d a b log =
          (case createLiquidityPoolIfNeeded env f fromAsset toAsset log of
             (Inr p, log1) \<Rightarrow> (Inr [fromAsset, toAsset], log1)
           | (Inl e, log1) \<Rightarrow>
               (case hopReady env f fromAsset weth a log1 of
                  None \<Rightarrow>
                    (Inl noViablePath,
                     snd (createLiquidityPoolIfNeeded env f fromAsset weth log1))
                | Some log2 \<Rightarrow>
                    (case hopReady env f weth toAsset b log2 of
                       None \<Rightarrow>
                         (Inl noViablePath,
                          snd (createLiquidityPoolIfNeeded env f weth toAsset log2))
                     | Some log3 \<Rightarrow> (Inr [fromAsset, weth, toAsset], log3))))"
  proof (cases r0)
    case (Inr p0)
    then show ?thesis unfolding d
      using selectPath_bootstrap_ok[OF nab, of env f fromAsset toAsset log p0 l0 weth] c0 by simp
  next
    case (Inl e0)
    then show ?thesis unfolding d
      using selectPath_fallback[OF nab, of env f fromAsset toAsset log e0 l0 weth] c0 by simp
  qed
  have "prefix l0 (snd (selectPath env f fromAsset toAsset weth False a b log))"
  proof (cases r0)
    case (Inr p0)
    then show ?thesis using selectPath_bootstrap_ok[OF nab, of env f fromAsset toAsset log p0 l0 weth] c0
      by simp
  next
    case (Inl e0)
    note eq = selectPath_fallback[OF nab, of env f fromAsset toAsset log e0 l0 weth, OF c0[unfolded Inl]]
    show ?thesis
    proof (cases "hopReady env f fromAsset weth a l0")
      case None
      then show ?thesis unfolding eq by (simp add: create_prefix)
    next
      case (Some l1)
      from hopReady_prefix[OF Some] have p1: "prefix l0 l1" .
      show ?thesis
      proof (cases "hopReady env f weth toAsset b l1")
        case None
        have "prefix l1 (snd (createLiquidityPoolIfNeeded env f weth toAsset l1))"
          by (rule create_prefix)
        with p1 show ?thesis unfolding eq using Some None by auto
      next
        case (Some l2)
        from hopReady_prefix[OF Some] p1 show ?thesis
          unfolding eq using \<open>hopReady env f fromAsset weth a l0 = Some l1\<close> Some by auto
      qed
    qed
  qed
  then show "\<exists>rest. snd (selectPath env f fromAsset toAsset weth d a b log)
                    = snd (createLiquidityPoolIfNeeded env f fromAsset toAsset log) @ rest"
    unfolding d using c0 by (auto simp: prefix_def)
  show "\<exists>rest. snd (createLiquidityPoolIfNeeded env f fromAsset toAsset log)
                    = log @ GetPair ViaSigner f fromAsset toAsset # rest"
    by (rule create_log)
next
  assume "\<not> d \<and> \<not> (a \<and> b)"
    and "getPair_r env (log @ [GetPair ViaSigner f fromAsset toAsset]) = Inr AddressZero"
  then show "\<exists>rest. snd (createLiquidityPoolIfNeeded env f fromAsset toAsset log)
                       = log @ GetPair ViaSigner f fromAsset toAsset
                             # CreatePair f fromAsset toAsset # rest"
    by (simp add: create_submits)
qed

lemma example_create_refused:
  "x \<noteq> ''W'' \<Longrightarrow> y \<noteq> ''W'' \<Longrightarrow> CreatePair ''F'' x y \<notin> set l \<Longrightarrow>
   createLiquidityPoolIfNeeded exampleWorld ''F'' x y l =
     (Inl (Error ''Failed to create liquidity pool''),
      l @ [GetPair ViaSigner ''F'' x y, CreatePair ''F'' x y])"
  by (simp add: createLiquidityPoolIfNeeded_run exampleWorld_def)

theorem path_selection_by_probes_witness:
  "selectPath exampleWorld ''F'' ''A'' ''B'' ''W'' True False False [] = (Inr [''A'', ''B''], [])
   \<and> selectPath exampleWorld ''F'' ''A'' ''B'' ''W'' False True True [] = (Inr [''A'', ''W'', ''B''], [])
   \<and> selectPath exampleWorld ''F'' ''A'' ''B'' ''W'' False True False [] =
       (Inr [''A'', ''W'', ''B''],
        [GetPair ViaSigner ''F'' ''A'' ''B'', CreatePair ''F'' ''A'' ''B'',
         GetPair ViaSigner ''F'' ''W'' ''B'', CreatePair ''F'' ''W'' ''B'', TxWait ''0xCreateTx'',
         GetPair ViaSigner ''F'' ''W'' ''B''])
   \<and> selectPath exampleWorld ''F'' ''A'' ''B'' ''X'' False False False [] =
       (Inl noViablePath,
        [GetPair ViaSigner ''F'' ''A'' ''B'', CreatePair ''F'' ''A'' ''B'',
         GetPair ViaSigner ''F'' ''A'' ''X'', CreatePair ''F'' ''A'' ''X''])"
proof -
  let ?l1 = "[GetPair ViaSigner ''F'' ''A'' ''B'', CreatePair ''F'' ''A'' ''B'']"
  have c: "createLiquidityPoolIfNeeded exampleWorld ''F'' ''A'' ''B'' [] =
             (Inl (Error ''Failed to create liquidity pool''), ?l1)"
    using example_create_refused[of "''A''" "''B''" "[]"] by simp
  have h1: "hopReady exampleWorld ''F'' ''A'' ''W'' True ?l1 = Some ?l1"
    by (simp add: hopReady_def)
  have h2: "hopReady exampleWorld ''F'' ''W'' ''B'' False ?l1 =
              Some (?l1 @ [GetPair ViaSigner ''F'' ''W'' ''B'', CreatePair ''F'' ''W'' ''B'',
                           TxWait ''0xCreateTx'', GetPair ViaSigner ''F'' ''W'' ''B''])"
    by (simp add: hopReady_def example_create_hop)
  have x: "createLiquidityPoolIfNeeded exampleWorld ''F'' ''A'' ''X'' ?l1 =
             (Inl (Error ''Failed to create liquidity pool''),
              ?l1 @ [GetPair ViaSigner ''F'' ''A'' ''X'', CreatePair ''F'' ''A'' ''X''])"
    using example_create_refused[of "''A''" "''X''" ?l1] by simp
  then have h3: "hopReady exampleWorld ''F'' ''A'' ''X'' False ?l1 = None"
    by (simp add: hopReady_def)
  show ?thesis
    using path_selection_by_probes[where d = True and a = False and b = False
        and env = exampleWorld and f = "''F''" and fromAsset = "''A''" and toAsset = "''B''"
        and weth = "''W''" and log = "[]"]
      path_selection_by_probes[where d = False and a = True and b = True
        and env = exampleWorld and f = "''F''" and fromAsset = "''A''" and toAsset = "''B''"
        and weth = "''W''" and log = "[]"]
      path_selection_by_probes[where d = False and a = True and b = False
        and env = exampleWorld and f = "''F''" and fromAsset = "''A''" and toAsset = "''B''"
        and weth = "''W''" and log = "[]"]
      path_selection_by_probes[where d = False and a = False and b = False
        and env = exampleWorld and f = "''F''" and fromAsset = "''A''" and toAsset = "''B''"
        and weth = "''X''" and log = "[]"]
    by (simp add: c h1 h2 h3 x)
qed

text \<open>
  Claim C2. When the direct pool was not found and not both intermediary pools were:
  if the creation of the direct pool fails and every intermediary pool that was not found
  is then created, the selector returns \<open>[from, intermediary, to]\<close>; and the selector
  fails only with the no-viable-route error, and only when the creation of the direct
  pool failed and the creation of a missing intermediary pool failed too.
\<close>

theorem bootstrap_fallback:
  assumes "\<not> d" and "\<not> (a \<and> b)"
  shows "(\<forall>e log1 log2 log3.
            createLiquidityPoolIfNeeded env f fromAsset toAsset log = (Inl e, log1) \<longrightarrow>
            hopReady env f fromAsset weth a log1 = Some log2 \<longrightarrow>
            hopReady env f weth toAsset b log2 = Some log3 \<longrightarrow>
            selectPath env f fromAsset toAsset weth d a b log = (Inr [fromAsset, weth, toAsset], log3))
       \<and> (\<forall>err. fst (selectPath env f fromAsset toAsset weth d a b log) = Inl err \<longrightarrow>
            err = noViablePath
            \<and> (\<exists>e log1. createLiquidityPoolIfNeeded env f fromAsset toAsset log = (Inl e, log1)
                 \<and> (hopReady env f fromAsset weth a log1 = None
                    \<or> (\<exists>log2. hopReady env f fromAsset weth a log1 = Some log2
                          \<and> hopReady env f weth toAsset b log2 = None))))"
proof -
  from assms have d: "d = False" by simp
  obtain r0 l0 where c0: "createLiquidityPoolIfNeeded env f fromAsset toAsset log = (r0, l0)"
    by (cases "createLiquidityPoolIfNeeded env f fromAsset toAsset log")
  show ?thesis
  proof (cases r0)
    case (Inl e0)
    show ?thesis
      unfolding d using c0 Inl selectPath_fallback[OF assms(2), of env f fromAsset toAsset log e0 l0 weth]
      by (auto split: option.splits)
  next
    case (Inr p0)
    show ?thesis
      unfolding d using c0 Inr selectPath_bootstrap_ok[OF assms(2), of env f fromAsset toAsset log p0 l0 weth]
      by simp
  qed
qed

theorem bootstrap_fallback_witness:
  "selectPath exampleWorld ''F'' ''A'' ''B'' ''W'' False False False [] =
     (Inr [''A'', ''W'', ''B''],
      [GetPair ViaSigner ''F'' ''A'' ''B'', CreatePair ''F'' ''A'' ''B'',
       GetPair ViaSigner ''F'' ''A'' ''W'', CreatePair ''F'' ''A'' ''W'', TxWait ''0xCreateTx'',
       GetPair ViaSigner ''F'' ''A'' ''W'',
       GetPair ViaSigner ''F'' ''W'' ''B'', CreatePair ''F'' ''W'' ''B'', TxWait ''0xCreateTx'',
       GetPair ViaSigner ''F'' ''W'' ''B''])"
proof -
  let ?l1 = "[GetPair ViaSigner ''F'' ''A'' ''B'', CreatePair ''F'' ''A'' ''B'']"
  let ?l2 = "?l1 @ [GetPair ViaSigner ''F'' ''A'' ''W'', CreatePair ''F'' ''A'' ''W'',
       TxWait ''0xCreateTx'', GetPair ViaSigner ''F'' ''A'' ''W'']"
  let ?l3 = "?l2 @ [GetPair ViaSigner ''F'' ''W'' ''B'', CreatePair ''F'' ''W'' ''B'',
       TxWait ''0xCreateTx'', GetPair ViaSigner ''F'' ''W'' ''B'']"
  have h1: "hopReady exampleWorld ''F'' ''A'' ''W'' False ?l1 = Some ?l2"
    by (simp add: hopReady_def example_create_hop)
  have h2: "hopReady exampleWorld ''F'' ''W'' ''B'' False ?l2 = Some ?l3"
    by (simp add: hopReady_def example_create_hop)
  have n1: "\<not> False" and n2: "\<not> (False \<and> False)" by simp_all
  from bootstrap_fallback[OF n1 n2, where env = exampleWorld and f = "''F''"
      and fromAsset = "''A''" and toAsset = "''B''" and weth = "''W''" and log = "[]"]
    example_create_direct h1 h2
  show ?thesis by simp
qed

subsection \<open>Settlement tracker\<close>

lemma polls_Suc: "polls c oid (Suc n) = [Sleep 3000, GetOrder c oid] @ polls c oid n"
  by (simp add: polls_def)

lemma polls_snoc: "polls c oid n @ [Sleep 3000, GetOrder c oid] = polls c oid (Suc n)"
  by (induction n) (simp_all add: polls_def)

lemma poll_step:
  "pollWhileOpen env c oid OPEN log =
     (case getOrder_r env (log @ [Sleep 3000, GetOrder c oid]) of
        Inl e \<Rightarrow> Some (Inl e, log @ [Sleep 3000, GetOrder c oid])
      | Inr st \<Rightarrow> pollWhileOpen env c oid st (log @ [Sleep 3000, GetOrder c oid]))"
  by (subst pollWhileOpen.simps) (simp add: io_defs sleep_def split: sum.splits)

lemma poll_done: "st \<noteq> OPEN \<Longrightarrow> pollWhileOpen env c oid st log = Some (Inr st, log)"
  by (subst pollWhileOpen.simps) simp

lemma poll_first_non_open:
  assumes "\<forall>k<n. getOrder_r env (log @ polls c oid (Suc k)) = Inr OPEN"
    and "getOrder_r env (log @ polls c oid (Suc n)) = Inr s"
    and "s \<noteq> OPEN"
  shows "pollWhileOpen env c oid OPEN log = Some (Inr s, log @ polls c oid (Suc n))"
  using assms
proof (induction n arbitrary: log)
  case 0
  then show ?case by (simp add: poll_step polls_def poll_done)
next
  case (Suc n)
  let ?l = "log @ [Sleep 3000, GetOrder c oid]"
  from Suc.prems(1) have first: "getOrder_r env ?l = Inr OPEN"
    by (auto simp: polls_def dest: spec[of _ 0])
  have "\<forall>k<n. getOrder_r env (?l @ polls c oid (Suc k)) = Inr OPEN"
  proof (intro allI impI)
    fix k assume "k < n"
    then have "Suc k < Suc n" by simp
    with Suc.prems(1) have "getOrder_r env (log @ polls c oid (Suc (Suc k))) = Inr OPEN" by blast
    then show "getOrder_r env (?l @ polls c oid (Suc k)) = Inr OPEN"
      by (simp add: polls_Suc)
  qed
  moreover have "getOrder_r env (?l @ polls c oid (Suc n)) = Inr s"
    using Suc.prems(2) by (simp add: polls_Suc)
  ultimately have "pollWhileOpen env c oid OPEN ?l = Some (Inr s, ?l @ polls c oid (Suc n))"
    using Suc.IH[of ?l] Suc.prems(3) by blast
  then show ?case using first by (simp add: poll_step polls_Suc)
qed

lemma poll_result:
  "pollWhileOpen env c oid st log = Some y \<Longrightarrow>
     fst y \<noteq> Inr OPEN \<and> prefix log (snd y)
     \<and> (st = OPEN \<longrightarrow> prefix (log @ [Sleep 3000, GetOrder c oid]) (snd y))"
proof (induction env c oid st log y rule: pollWhileOpen.raw_induct[rotated 1, consumes 1])
  case (1 pollWhileOpen env chainId orderId orderStatus log y)
  show ?case
  proof (cases "orderStatus = OPEN")
    case False
    with 1(2) show ?thesis by auto
  next
    case True
    let ?l = "log @ [Sleep 3000, GetOrder chainId orderId]"
    show ?thesis
    proof (cases "getOrder_r env ?l")
      case (Inl e)
      with 1(2) True show ?thesis by (auto simp: io_defs sleep_def)
    next
      case (Inr st')
      with 1(2) True have "pollWhileOpen env chainId orderId st' ?l = Some y"
        by (auto simp: io_defs sleep_def)
      from 1(1)[OF this] have "fst y \<noteq> Inr OPEN" "prefix ?l (snd y)" by auto
      then show ?thesis using True by (auto simp: prefix_def)
    qed
  qed
qed

lemma poll_forever:
  assumes "pollWhileOpen env c oid st log = Some y"
  shows "\<not> (st = OPEN \<and> (\<exists>n log0. log = log0 @ polls c oid n
            \<and> (\<forall>k. getOrder_r env (log0 @ polls c oid (Suc k)) = Inr OPEN)))"
  using assms
proof (induction env c oid st log y rule: pollWhileOpen.raw_induct[rotated 1, consumes 1])
  case (1 pollWhileOpen env chainId orderId orderStatus log y)
  show ?case
  proof
    assume h: "orderStatus = OPEN \<and> (\<exists>n log0. log = log0 @ polls chainId orderId n
       \<and> (\<forall>k. getOrder_r env (log0 @ polls chainId orderId (Suc k)) = Inr OPEN))"
    then obtain n log0 where l: "log = log0 @ polls chainId orderId n"
      and a: "\<forall>k. getOrder_r env (log0 @ polls chainId orderId (Suc k)) = Inr OPEN" by blast
    let ?l = "log @ [Sleep 3000, GetOrder chainId orderId]"
    have l': "?l = log0 @ polls chainId orderId (Suc n)" using l polls_snoc[of chainId orderId n] by simp
    with a have "getOrder_r env ?l = Inr OPEN" by simp
    with 1(2) h have "pollWhileOpen env chainId orderId OPEN ?l = Some y"
      by (auto simp: io_defs sleep_def)
    from 1(1)[OF this] l' a show False by blast
  qed
qed

text \<open>
  Claim C8. On a registered chain the tracker sleeps 3000 ms and queries the order's
  status, again and again while the status is OPEN, and returns the first status that is
  not OPEN, after exactly that many rounds; this holds for every number of rounds, and
  when the status is OPEN at every poll the tracker never returns. For the statuses OPEN,
  OPEN, FULFILLED it returns FULFILLED after the third poll.
\<close>

theorem tracker_returns_first_non_open:
  assumes "js_lookup supportedChains chain = chainId" and "chainId \<noteq> Undefined"
  shows "(\<forall>n status.
            (\<forall>k<n. getOrder_r env (log @ polls chainId orderId (Suc k)) = Inr OPEN) \<longrightarrow>
            getOrder_r env (log @ polls chainId orderId (Suc n)) = Inr status \<longrightarrow>
            status \<noteq> OPEN \<longrightarrow>
            waitForOrderStatus env orderId chain log
              = Some (Inr status, log @ polls chainId orderId (Suc n)))
       \<and> ((\<forall>k. getOrder_r env (log @ polls chainId orderId (Suc k)) = Inr OPEN) \<longrightarrow>
            waitForOrderStatus env orderId chain log = None)"
proof (intro conjI allI impI)
  fix n status
  assume "\<forall>k<n. getOrder_r env (log @ polls chainId orderId (Suc k)) = Inr OPEN"
    and "getOrder_r env (log @ polls chainId orderId (Suc n)) = Inr status"
    and "status \<noteq> OPEN"
  from poll_first_non_open[OF this] assms
  show "waitForOrderStatus env orderId chain log
          = Some (Inr status, log @ polls chainId orderId (Suc n))"
    by (simp add: waitForOrderStatus_def)
next
  assume a: "\<forall>k. getOrder_r env (log @ polls chainId orderId (Suc k)) = Inr OPEN"
  have "pollWhileOpen env chainId orderId OPEN log = None"
  proof (cases "pollWhileOpen env chainId orderId OPEN log")
    case (Some y)
    have "\<exists>n log0. log = log0 @ polls chainId orderId n
            \<and> (\<forall>k. getOrder_r env (log0 @ polls chainId orderId (Suc k)) = Inr OPEN)"
      using a by (intro exI[of _ 0] exI[of _ log]) (simp add: polls_def)
    with poll_forever[OF Some] have False by blast
    then show ?thesis ..
  qed simp
  with assms show "waitForOrderStatus env orderId chain log = None"
    by (simp add: waitForOrderStatus_def)
qed

theorem tracker_returns_first_non_open_witness:
  "waitForOrderStatus exampleWorld ''uid'' ''sepolia'' []
     = Some (Inr FULFILLED,
             [Sleep 3000, GetOrder (Own 11155111) ''uid'',
              Sleep 3000, GetOrder (Own 11155111) ''uid'',
              Sleep 3000, GetOrder (Own 11155111) ''uid''])
   \<and> waitForOrderStatus (exampleWorld\<lparr>getOrder_r := (\<lambda>log. Inr OPEN)\<rparr>) ''uid'' ''sepolia'' [] = None"
proof -
  have c: "js_lookup supportedChains ''sepolia'' = Own 11155111"
    by (simp add: js_lookup_def supportedChains_def)
  have u: "Own 11155111 \<noteq> (Undefined :: chainid)" by simp
  have p: "\<forall>k<2. getOrder_r exampleWorld ([] @ polls (Own 11155111) ''uid'' (Suc k)) = Inr OPEN"
    by (simp add: less_Suc_eq numeral_2_eq_2 polls_def exampleWorld_def)
  have q: "getOrder_r exampleWorld ([] @ polls (Own 11155111) ''uid'' (Suc 2)) = Inr FULFILLED"
    by (simp add: numeral_2_eq_2 polls_def exampleWorld_def)
  have o: "\<forall>k. getOrder_r (exampleWorld\<lparr>getOrder_r := (\<lambda>log. Inr OPEN)\<rparr>)
                 ([] @ polls (Own 11155111) ''uid'' (Suc k)) = Inr OPEN"
    by simp
  from tracker_returns_first_non_open[OF c u, of exampleWorld "[]" "''uid''"] p q
  have "waitForOrderStatus exampleWorld ''uid'' ''sepolia'' []
          = Some (Inr FULFILLED, [] @ polls (Own 11155111) ''uid'' (Suc 2))"
    by blast
  moreover from tracker_returns_first_non_open[OF c u,
      of "exampleWorld\<lparr>getOrder_r := (\<lambda>log. Inr OPEN)\<rparr>" "[]" "''uid''"] o
  have "waitForOrderStatus (exampleWorld\<lparr>getOrder_r := (\<lambda>log. Inr OPEN)\<rparr>) ''uid'' ''sepolia'' [] = None"
    by blast
  ultimately show ?thesis by (simp add: polls_def numeral_2_eq_2)
qed

text \<open>
  Claim C10. A status returned by the tracker is never OPEN, and it is returned only after
  the tracker has slept 3000 ms and then queried the status at least once, also when the
  order is already in a terminal state at the first query; a run that ends without these
  two events is the configuration error for an unknown chain name.
\<close>

theorem tracker_never_returns_open:
  assumes "waitForOrderStatus env orderId chain log = Some (r, log')"
  shows "r \<noteq> Inr OPEN
       \<and> ((\<exists>status. r = Inr status) \<longrightarrow> js_lookup supportedChains chain \<noteq> Undefined)
       \<and> (js_lookup supportedChains chain \<noteq> Undefined \<longrightarrow>
            (\<exists>rest. log' = log @ Sleep 3000
                              # GetOrder (js_lookup supportedChains chain) orderId # rest))"
proof (cases "js_lookup supportedChains chain = Undefined")
  case True
  with assms show ?thesis by (auto simp: waitForOrderStatus_def)
next
  case False
  with assms have "pollWhileOpen env (js_lookup supportedChains chain) orderId OPEN log = Some (r, log')"
    by (simp add: waitForOrderStatus_def)
  from poll_result[OF this] False show ?thesis
    by (auto simp: prefix_def)
qed

theorem tracker_never_returns_open_witness:
  "FULFILLED \<noteq> OPEN
   \<and> js_lookup supportedChains ''sepolia'' \<noteq> Undefined
   \<and> (\<exists>rest. [Sleep 3000, GetOrder (Own 11155111) ''uid'']
          = [] @ Sleep 3000 # GetOrder (js_lookup supportedChains ''sepolia'') ''uid'' # rest)"
proof -
  have "waitForOrderStatus (exampleWorld\<lparr>getOrder_r := (\<lambda>log. Inr FULFILLED)\<rparr>)
          ''uid'' ''sepolia'' []
        = Some (Inr FULFILLED, [Sleep 3000, GetOrder (Own 11155111) ''uid''])"
    by (simp add: waitForOrderStatus_def js_lookup_def supportedChains_def poll_step poll_done
          Let_def)
  from tracker_never_returns_open[OF this] show ?thesis by simp
qed

subsection \<open>Chain resolution\<close>

lemma unknown_chain_undefined:
  assumes "chain \<notin> {''sepolia'', ''mainnet'', ''base''}" and "chain \<notin> set objectPrototypeKeys"
  shows "js_lookup supportedChains chain = Undefined"
  using assms by (simp add: js_lookup_def supportedChains_def)

lemma sendTransaction_unknown_chain:
  "js_lookup supportedChains chain = Undefined \<Longrightarrow>
   sendTransaction env wallets receiver amount chain token log =
     (Inl (Error (if wallets = [] then ''No wallet is connected!'' else ''Unsupported chain'')), log)"
  by (cases wallets) (simp_all add: sendTransaction_def throw_def)

lemma sendOrder_unknown_chain:
  "js_lookup supportedChains chain = Undefined \<Longrightarrow>
   sendOrder env wallets chain fromAsset toAsset amount log = (Inl (Error ''Unsupported chain''), log)"
  by (simp add: sendOrder_def throw_def)

lemma uniswapV2Swap_unknown_chain:
  "js_lookup supportedChains chain = Undefined \<Longrightarrow>
   uniswapV2Swap env wallets chain fromAsset toAsset amount log =
     (Inl (Error (if wallets = [] then ''No wallet is connected!''
                  else ''Unsupported chain: '' @ chain)), log)"
  by (cases wallets) (simp_all add: uniswapV2Swap_def throw_def)

lemma waitForOrderStatus_unknown_chain:
  "js_lookup supportedChains chain = Undefined \<Longrightarrow>
   waitForOrderStatus env orderId chain log = Some (Inl (Error ''Unsupported chain''), log)"
  by (simp add: waitForOrderStatus_def)

text \<open>
  For a chain name that is neither registered nor the name of a member of
  \<^verbatim>\<open>Object.prototype\<close>, every entry point fails before any call on a wallet,
  signer or network, leaving the log as it was. The transfer executor and the swap
  executor test the wallet before the chain.
\<close>

lemma unlisted_chain_fails_first:
  assumes "chain \<notin> {''sepolia'', ''mainnet'', ''base''}" and "chain \<notin> set objectPrototypeKeys"
  shows "sendOrder env wallets chain fromAsset toAsset amount log
           = (Inl (Error ''Unsupported chain''), log)
       \<and> waitForOrderStatus env orderId chain log = Some (Inl (Error ''Unsupported chain''), log)
       \<and> sendTransaction env wallets receiver amount chain token log
           = (Inl (Error (if wallets = [] then ''No wallet is connected!''
                          else ''Unsupported chain'')), log)
       \<and> uniswapV2Swap env wallets chain fromAsset toAsset amount log
           = (Inl (Error (if wallets = [] then ''No wallet is connected!''
                          else ''Unsupported chain: '' @ chain)), log)"
  using unknown_chain_undefined[OF assms]
  by (simp only: sendOrder_unknown_chain waitForOrderStatus_unknown_chain
        sendTransaction_unknown_chain uniswapV2Swap_unknown_chain simp_thms)

text \<open>
  The guard \<^verbatim>\<open>supportedChains[chain] === undefined\<close> is a property read on a plain
  object, so a name inherited from \<^verbatim>\<open>Object.prototype\<close> is not
  \<^verbatim>\<open>undefined\<close> and passes it. Whatever the wallet answers, the order executor and
  the transfer executor then ask the wallet to switch chain, and fail later for lack of a
  decimal table; the swap executor fails on its router table.
\<close>

lemma inherited_chain_name: "js_lookup supportedChains ''constructor'' = Inherited ''constructor''"
  by (simp add: js_lookup_def supportedChains_def objectPrototypeKeys_def)

lemma sendOrder_inherited_chain_name:
  "sendOrder env (w # ws) ''constructor'' fromAsset toAsset amount log =
     (case switchChain_r env (log @ [SwitchChain w (Inherited ''constructor'')]) of
        Inl e \<Rightarrow> (Inl e, log @ [SwitchChain w (Inherited ''constructor'')])
      | Inr u \<Rightarrow>
     (case getEthersProvider_r env
             (log @ [SwitchChain w (Inherited ''constructor''), GetEthersProvider w]) of
        Inl e \<Rightarrow> (Inl e, log @ [SwitchChain w (Inherited ''constructor''), GetEthersProvider w])
      | Inr p \<Rightarrow>
     (case getAddress_r env
             (log @ [SwitchChain w (Inherited ''constructor''), GetEthersProvider w,
                     GetAddress w]) of
        Inl e \<Rightarrow> (Inl e, log @ [SwitchChain w (Inherited ''constructor''), GetEthersProvider w,
                                 GetAddress w])
      | Inr a \<Rightarrow> (Inl (Error ''No decimals for chain: constructor''),
                  log @ [SwitchChain w (Inherited ''constructor''), GetEthersProvider w,
                         GetAddress w]))))"
  by (simp add: sendOrder_def inherited_chain_name io_defs num_lookup_def Let_def
        split: sum.splits)

lemma sendTransaction_inherited_chain_name:
  "sendTransaction env (w # ws) receiver amount ''constructor'' token log =
     (case switchChain_r env (log @ [SwitchChain w (Inherited ''constructor'')]) of
        Inl e \<Rightarrow> (Inl e, log @ [SwitchChain w (Inherited ''constructor'')])
      | Inr u \<Rightarrow>
     (case getEthersProvider_r env
             (log @ [SwitchChain w (Inherited ''constructor''), GetEthersProvider w]) of
        Inl e \<Rightarrow> (Inl e, log @ [SwitchChain w (Inherited ''constructor''), GetEthersProvider w])
      | Inr p \<Rightarrow> (Inl (Error ''No decimals for chain: constructor''),
                  log @ [SwitchChain w (Inherited ''constructor''), GetEthersProvider w])))"
  by (simp add: sendTransaction_def inherited_chain_name io_defs num_lookup_def Let_def
        split: sum.splits)

lemma uniswapV2Swap_inherited_chain_name:
  "uniswapV2Swap env (w # ws) ''constructor'' fromAsset toAsset amount log =
     (Inl (Error ''No Uniswap Router found for chain: constructor''), log)"
  by (simp add: uniswapV2Swap_def inherited_chain_name io_defs num_lookup_def Let_def)

lemma waitForOrderStatus_inherited_chain_name:
  "waitForOrderStatus env orderId ''constructor'' log =
     pollWhileOpen env (Inherited ''constructor'') orderId OPEN log"
  by (simp add: waitForOrderStatus_def inherited_chain_name)

text \<open>
  Claim C6. The name \<open>constructor\<close> is not in the registered set, yet with a wallet
  connected no entry point fails with the unsupported-chain error before any call: the
  order executor asks the wallet to switch chain, obtains the provider and reads the
  signer's address, and the transfer executor asks the wallet to switch chain and
  obtains the provider, before both fail with "No decimals for chain"; the swap executor
  fails with "No Uniswap Router found for chain"; the order tracker sleeps and polls
  the venue until the order leaves the open state.
\<close>

theorem inherited_chain_name_passes_guard:
  "''constructor'' \<notin> {''sepolia'', ''mainnet'', ''base''}
   \<and> js_lookup supportedChains ''constructor'' = Inherited ''constructor''
   \<and> sendOrder exampleWorld [7] ''constructor'' ''A'' ''B'' ''100'' []
       = (Inl (Error ''No decimals for chain: constructor''),
          [SwitchChain 7 (Inherited ''constructor''), GetEthersProvider 7, GetAddress 7])
   \<and> sendTransaction exampleWorld [7] ''0xReceiver'' ''100'' ''constructor'' ''A'' []
       = (Inl (Error ''No decimals for chain: constructor''),
          [SwitchChain 7 (Inherited ''constructor''), GetEthersProvider 7])
   \<and> uniswapV2Swap exampleWorld [7] ''constructor'' ''A'' ''B'' ''100'' []
       = (Inl (Error ''No Uniswap Router found for chain: constructor''), [])
   \<and> waitForOrderStatus exampleWorld ''uid'' ''constructor'' []
       = Some (Inr FULFILLED,
               [Sleep 3000, GetOrder (Inherited ''constructor'') ''uid'',
                Sleep 3000, GetOrder (Inherited ''constructor'') ''uid'',
                Sleep 3000, GetOrder (Inherited ''constructor'') ''uid''])"
proof -
  have o: "sendOrder exampleWorld [7] ''constructor'' ''A'' ''B'' ''100'' []
       = (Inl (Error ''No decimals for chain: constructor''),
          [SwitchChain 7 (Inherited ''constructor''), GetEthersProvider 7, GetAddress 7])"
    by (simp add: sendOrder_inherited_chain_name exampleWorld_def)
  have t: "sendTransaction exampleWorld [7] ''0xReceiver'' ''100'' ''constructor'' ''A'' []
       = (Inl (Error ''No decimals for chain: constructor''),
          [SwitchChain 7 (Inherited ''constructor''), GetEthersProvider 7])"
    by (simp add: sendTransaction_inherited_chain_name exampleWorld_def)
  have p: "\<forall>k<2. getOrder_r exampleWorld ([] @ polls (Inherited ''constructor'') ''uid'' (Suc k))
                   = Inr OPEN"
    by (simp add: less_Suc_eq numeral_2_eq_2 polls_def exampleWorld_def)
  have q: "getOrder_r exampleWorld ([] @ polls (Inherited ''constructor'') ''uid'' (Suc 2))
             = Inr FULFILLED"
    by (simp add: numeral_2_eq_2 polls_def exampleWorld_def)
  have "pollWhileOpen exampleWorld (Inherited ''constructor'') ''uid'' OPEN []
          = Some (Inr FULFILLED, [] @ polls (Inherited ''constructor'') ''uid'' (Suc 2))"
    by (rule poll_first_non_open[OF p q]) simp
  then have s: "waitForOrderStatus exampleWorld ''uid'' ''constructor'' []
       = Some (Inr FULFILLED,
               [Sleep 3000, GetOrder (Inherited ''constructor'') ''uid'',
                Sleep 3000, GetOrder (Inherited ''constructor'') ''uid'',
                Sleep 3000, GetOrder (Inherited ''constructor'') ''uid''])"
    by (simp add: waitForOrderStatus_inherited_chain_name polls_def numeral_2_eq_2)
  from o t s show ?thesis
    by (simp add: inherited_chain_name uniswapV2Swap_inherited_chain_name)
qed

subsection \<open>Slippage\<close>

lemma bitlen_eqI: "2 ^ k \<le> n \<Longrightarrow> n < 2 * 2 ^ k \<Longrightarrow> bitlen n = Suc k"
proof (induction k arbitrary: n)
  case 0
  then have "n = 1" by simp
  then show ?case by (simp add: bitlen.simps[of "Suc 0"] bitlen.simps[of 0])
next
  case (Suc k)
  from Suc.prems have "2 ^ k \<le> n div 2" "n div 2 < 2 * 2 ^ k" by auto
  from Suc.IH[OF this] have "bitlen (n div 2) = Suc k" .
  moreover from Suc.prems have "n \<noteq> 0" by auto
  ultimately show ?case by (subst bitlen.simps) simp
qed

lemma bitlen_lower: "0 < m \<Longrightarrow> 2 ^ (bitlen m - 1) \<le> m"
proof (induction m rule: less_induct)
  case (less m)
  show ?case
  proof (cases "m div 2 = 0")
    case True
    then show ?thesis using less.prems
      by (subst bitlen.simps) (simp add: bitlen.simps[of 0])
  next
    case False
    then have "m div 2 < m" "0 < m div 2" using less.prems by auto
    from less.IH[OF this] have ih: "2 ^ (bitlen (m div 2) - 1) \<le> m div 2" .
    have bl: "bitlen m = Suc (bitlen (m div 2))" using less.prems
      by (subst bitlen.simps) simp
    have "0 < bitlen (m div 2)" using False by (subst bitlen.simps) simp
    then have "(2::nat) ^ (bitlen m - 1) = 2 * 2 ^ (bitlen (m div 2) - 1)"
      using bl by (cases "bitlen (m div 2)") simp_all
    with ih show ?thesis by simp
  qed
qed

lemma bitlen_small: "n < 2 ^ 53 \<Longrightarrow> bitlen n \<le> 53"
proof (cases "n = 0")
  case True
  then show ?thesis by (simp add: bitlen.simps[of 0])
next
  case False
  assume n: "n < 2 ^ 53"
  show ?thesis
  proof (rule ccontr)
    assume "\<not> bitlen n \<le> 53"
    then have b: "53 < bitlen n" by simp
    from bitlen_lower[of n] False have "2 ^ (bitlen n - 1) \<le> n" by simp
    moreover from b have "(2::nat) ^ 53 \<le> 2 ^ (bitlen n - 1)"
      by (intro power_increasing) simp_all
    ultimately show False using n by simp
  qed
qed

lemma round53_small: "n < 2 ^ 53 \<Longrightarrow> round53 n = n"
  by (simp add: round53_def bitlen_small)

lemma round53_large:
  assumes "2 ^ 53 \<le> n"
  shows "2 ^ 53 \<le> round53 n"
proof (cases "bitlen n \<le> 53")
  case True
  then show ?thesis using assms by (simp add: round53_def)
next
  case False
  define s where "s = bitlen n - 53"
  from False have s: "bitlen n - 1 = 52 + s" "0 < s" by (simp_all add: s_def)
  from assms have "0 < n" by (simp add: less_le_trans[of 0 "2 ^ 53"])
  from bitlen_lower[OF this] s have "2 ^ (52 + s) \<le> n" by simp
  then have "2 ^ 52 * 2 ^ s \<le> n" by (simp add: power_add)
  then have q: "2 ^ 52 \<le> n div 2 ^ s"
    by (simp add: less_eq_div_iff_mult_less_eq)
  have "(2::nat) ^ 53 \<le> 2 ^ 52 * 2 ^ s"
    using s(2) by (cases s) simp_all
  also have "\<dots> \<le> (n div 2 ^ s) * 2 ^ s" using q by simp
  also have "\<dots> \<le> round53 n"
    using False by (simp add: round53_def Let_def s_def)
  finally show ?thesis .
qed

lemma shortest_small: "x < 2 ^ 53 \<Longrightarrow> shortestFrom x j = x"
proof (induction j)
  case 0
  show ?case by simp
next
  case (Suc j)
  define p :: nat where "p = 10 ^ Suc j"
  define lo where "lo = (x div p) * p"
  define hi where "hi = lo + p"
  have p: "0 < p" by (simp add: p_def)
  have lo: "lo \<le> x" by (simp add: lo_def)
  have hi: "x < hi" unfolding hi_def lo_def
    using p by (metis add.commute dividend_less_div_times)
  from lo Suc.prems have rlo: "round53 lo = lo" by (simp add: round53_small)
  have rhi: "round53 hi \<noteq> x"
  proof (cases "hi < 2 ^ 53")
    case True
    then show ?thesis using hi by (simp add: round53_small)
  next
    case False
    then have "2 ^ 53 \<le> hi" by simp
    then have "2 ^ 53 \<le> round53 hi" by (rule round53_large)
    with Suc.prems show ?thesis by simp
  qed
  have step: "shortestFrom x (Suc j) =
      (if round53 lo = x \<and> round53 hi = x then
         (if x - lo < hi - x then lo
          else if hi - x < x - lo then hi
          else if even (lo div p) then lo else hi)
       else if round53 lo = x then lo
       else if round53 hi = x then hi
       else shortestFrom x j)"
    by (simp only: shortestFrom.simps(2) Let_def p_def lo_def hi_def)
  show ?case
    unfolding step using rlo rhi Suc.IH[OF Suc.prems] by simp
qed

lemma toString_small: "n < 2 ^ 53 \<Longrightarrow> toString n = Digits n"
proof -
  assume n: "n < 2 ^ 53"
  have "(2::nat) ^ 53 < 10 ^ 21" by simp
  with n have "n < 10 ^ 21" by (rule less_trans)
  with n show ?thesis by (simp add: toString_def shortest_small)
qed

lemma one_minus_slippage: "d_sub (Dbl 1 0) slippage = Dbl 68454714336031536 56"
proof -
  have "bitlen 68454714336031539 = Suc 55" by (rule bitlen_eqI) simp_all
  then have "round53 68454714336031539 = 68454714336031536"
    by (simp add: round53_def Let_def)
  then show ?thesis by (simp add: slippage_def)
qed

lemma slippage_percent: "Math_floor (d_mul slippage (Dbl 100 0)) = 5"
proof -
  have "bitlen 360287970189639700 = Suc 58" by (rule bitlen_eqI) simp_all
  then have "round53 360287970189639700 = 360287970189639680"
    by (simp add: round53_def Let_def)
  then show ?thesis by (simp add: slippage_def)
qed

lemma amountOutMin_floor: "amountOutMin expected = (expected * 95) div 100"
  by (simp add: amountOutMin_def slippage_percent)

lemma slippageBuyAmount_small:
  assumes "n < 2 ^ 53"
  shows "slippageBuyAmount (Digits n)
           = toString ((2 * round53 (n * 68454714336031536) + 2 ^ 56) div 2 ^ 57)"
proof -
  have "Number (Digits n) = Dbl n 0" using assms by (simp add: round53_small)
  then show ?thesis by (simp only: slippageBuyAmount_def one_minus_slippage d_mul.simps
        Math_round.simps) simp
qed

lemma order_slippage_large:
  "slippageBuyAmount (Digits 10000000000000000000000) = Exponent 9499999999999998951424"
proof -
  have "bitlen 10000000000000000000000 = Suc 73" by (rule bitlen_eqI) simp_all
  then have r: "round53 10000000000000000000000 = 10000000000000000000000"
    by (simp add: round53_def Let_def)
  have "bitlen 684547143360315360000000000000000000000 = Suc 129" by (rule bitlen_eqI) simp_all
  then have p: "round53 684547143360315360000000000000000000000
                  = 684547143360315316442136274085676580864"
    by (simp add: round53_def Let_def)
  have "slippageBuyAmount (Digits 10000000000000000000000)
          = toString (Math_round (d_mul (Dbl 10000000000000000000000 0) (Dbl 68454714336031536 56)))"
    by (simp only: slippageBuyAmount_def one_minus_slippage Number.simps r)
  then show ?thesis by (simp add: p toString_def)
qed

text \<open>
  Claim C3. The swap executor computes the minimum output as \<open>expected * 95 div 100\<close>
  on integers (lemma \<open>amountOutMin_floor\<close>). The order executor does not: it multiplies
  in binary64 and rounds to the nearest integer. For a quoted buy amount of 10 base units
  it asks for 10, where \<open>floor(10 * 95 / 100)\<close> is 9; for a quoted buy amount of
  \<open>10\<^sup>2\<^sup>2\<close> base units its result is below the integer result by 1048576 and is
  printed in exponent notation.
\<close>

theorem order_slippage_uses_floating_point:
  "slippageBuyAmount (Digits 10) = Digits 10
   \<and> (10 * 95) div 100 = (9 :: nat)
   \<and> amountOutMin 10 = 9
   \<and> slippageBuyAmount (Digits 10000000000000000000000) = Exponent 9499999999999998951424
   \<and> amountOutMin 10000000000000000000000 = 9500000000000000000000"
proof -
  have "bitlen 684547143360315360 = Suc 59" by (rule bitlen_eqI) simp_all
  then have "round53 684547143360315360 = 684547143360315392"
    by (simp add: round53_def Let_def)
  then have "slippageBuyAmount (Digits 10) = Digits 10"
    by (simp add: slippageBuyAmount_small toString_small)
  then show ?thesis by (simp add: amountOutMin_floor order_slippage_large)
qed

lemma order_slippage_scenario:
  "slippageBuyAmount (Digits 200000000) = Digits 190000000"
proof -
  have "bitlen 13690942867206307200000000 = Suc 83" by (rule bitlen_eqI) simp_all
  then have "round53 13690942867206307200000000 = 13690942867206307840000000"
    by (simp add: round53_def Let_def)
  then show ?thesis
    by (simp add: slippageBuyAmount_small toString_small)
qed

lemma bitlen_numeral:
  "bitlen (numeral (Num.Bit0 k)) = bitlen (numeral k) + 1"
  "bitlen (numeral (Num.Bit1 k)) = bitlen (numeral k) + 1"
  "bitlen (numeral Num.One) = 1"
  "bitlen 1 = 1"
  "bitlen (Suc 0) = 1"
  by (subst bitlen.simps, simp add: bitlen.simps[of 0])+

lemma shortestFrom_numeral:
  "shortestFrom x (numeral k) =
     (let p = 10 ^ numeral k; lo = (x div p) * p; hi = lo + p
      in if round53 lo = x \<and> round53 hi = x then
           (if x - lo < hi - x then lo
            else if hi - x < x - lo then hi
            else if even (lo div p) then lo else hi)
         else if round53 lo = x then lo
         else if round53 hi = x then hi
         else shortestFrom x (pred_numeral k))"
  by (simp only: numeral_eq_Suc shortestFrom.simps(2))

lemma shortestFrom_one:
  "shortestFrom x (Suc 0) =
     (let lo = (x div 10) * 10; hi = lo + 10
      in if round53 lo = x \<and> round53 hi = x then
           (if x - lo < hi - x then lo
            else if hi - x < x - lo then hi
            else if even (lo div 10) then lo else hi)
         else if round53 lo = x then lo
         else if round53 hi = x then hi
         else x)"
  by (simp add: shortestFrom.simps(2) Let_def)

text \<open>
  From \<open>2\<^sup>5\<^sup>3\<close> on the digits printed are the shortest that read back as the number,
  not the digits of its exact value: here the number is 117283949561728384.
\<close>

lemma order_slippage_shortest_digits:
  "slippageBuyAmount (Digits 123456789012345678) = Digits 117283949561728380"
proof -
  have n: "Number (Digits 123456789012345678) = Dbl 123456789012345680 0"
    by (simp add: round53_def Let_def bitlen_numeral)
  have p: "round53 (123456789012345680 * 68454714336031536) = 8451199224683839965352558197735424"
    by (simp add: round53_def Let_def bitlen_numeral)
  have m: "slippageBuyAmount (Digits 123456789012345678) = toString 117283949561728384"
    by (simp only: slippageBuyAmount_def one_minus_slippage n d_mul.simps Math_round.simps p)
       simp
  have s: "shortestFrom 117283949561728384 21 = 117283949561728380"
    by (simp add: shortestFrom_numeral shortestFrom_one round53_def Let_def bitlen_numeral)
  show ?thesis by (simp add: m toString_def s)
qed

subsection \<open>Amount conversion\<close>

lemma digit_cases: "n < 10 \<Longrightarrow> n \<in> {0, 1, 2, 3, 4, 5, 6, 7, 8, 9 :: nat}"
  by auto

lemma digitChar_props:
  assumes "n < 10"
  shows "isDigit (digitChar n)" "digitVal (digitChar n) = n" "digitChar n \<noteq> CHR ''.''"
    "digitChar n \<noteq> CHR ''-''" "(digitChar n = CHR ''0'') = (n = 0)"
  using digit_cases[OF assms]
  by (auto simp: isDigit_def digitVal_def digitChar_def)

lemma decVal_snoc: "decVal (s @ [c]) = 10 * decVal s + digitVal c"
  by (simp add: decVal_def)

lemma decDigits_ne: "decDigits n \<noteq> []"
  by (subst decDigits.simps) simp

lemma decDigits_digits: "list_all isDigit (decDigits n)"
proof (induction n rule: decDigits.induct)
  case (1 n)
  show ?case
  proof (cases "n < 10")
    case True
    then show ?thesis by (subst decDigits.simps) (simp add: digitChar_props)
  next
    case False
    with 1 show ?thesis by (subst decDigits.simps) (simp add: digitChar_props)
  qed
qed

lemma decVal_decDigits: "decVal (decDigits n) = n"
proof (induction n rule: decDigits.induct)
  case (1 n)
  show ?case
  proof (cases "n < 10")
    case True
    then show ?thesis by (subst decDigits.simps) (simp add: decVal_def digitChar_props)
  next
    case False
    with 1 show ?thesis by (subst decDigits.simps) (simp add: decVal_snoc digitChar_props)
  qed
qed

lemma length_decDigits: "0 < d \<Longrightarrow> n < 10 ^ d \<Longrightarrow> length (decDigits n) \<le> d"
proof (induction n arbitrary: d rule: decDigits.induct)
  case (1 n)
  show ?case
  proof (cases "n < 10")
    case True
    then show ?thesis using "1.prems" by (subst decDigits.simps) simp
  next
    case False
    from "1.prems" obtain e where d: "d = Suc e" by (cases d) auto
    with False "1.prems" have e: "0 < e" by (cases e) auto
    from "1.prems" d have "n div 10 < 10 ^ e" by (simp add: less_mult_imp_div_less mult.commute)
    from "1.IH"[OF False e this] d False show ?thesis by (subst decDigits.simps) simp
  qed
qed

lemma zeros_fold: "foldl (\<lambda>a c. 10 * a + digitVal c) 0 (replicate k (CHR ''0'')) = 0"
  by (induction k) (simp_all add: digitVal_def)


lemma decVal_zeros_left: "decVal (replicate k (CHR ''0'') @ s) = decVal s"
  by (simp add: decVal_def zeros_fold)


lemma takeWhile_zeros:
  "\<exists>k. takeWhile (\<lambda>c. c = CHR ''0'') xs = replicate k (CHR ''0'')"
proof (induction xs)
  case Nil
  show ?case by simp
next
  case (Cons x xs)
  then obtain k where k: "takeWhile (\<lambda>c. c = CHR ''0'') xs = replicate k (CHR ''0'')" by blast
  show ?case
  proof (cases "x = CHR ''0''")
    case True
    with k have "takeWhile (\<lambda>c. c = CHR ''0'') (x # xs) = replicate (Suc k) (CHR ''0'')" by simp
    then show ?thesis by blast
  next
    case False
    then have "takeWhile (\<lambda>c. c = CHR ''0'') (x # xs) = replicate 0 (CHR ''0'')" by simp
    then show ?thesis by blast
  qed
qed


lemma trim_decomp:
  "\<exists>k. s = trimTrailingZeros s @ replicate k (CHR ''0'')"
proof -
  obtain k where k: "takeWhile (\<lambda>c. c = CHR ''0'') (rev s) = replicate k (CHR ''0'')"
    using takeWhile_zeros by blast
  have "rev s = takeWhile (\<lambda>c. c = CHR ''0'') (rev s) @ dropWhile (\<lambda>c. c = CHR ''0'') (rev s)"
    by simp
  then have "rev (rev s) = rev (replicate k (CHR ''0'') @ dropWhile (\<lambda>c. c = CHR ''0'') (rev s))"
    using k by simp
  then have "s = trimTrailingZeros s @ replicate k (CHR ''0'')"
    by (simp add: trimTrailingZeros_def)
  then show ?thesis ..
qed


lemma trim_idem: "trimTrailingZeros (trimTrailingZeros s) = trimTrailingZeros s"
  by (simp add: trimTrailingZeros_def)


lemma trim_zero: "trimTrailingZeros ''0'' = []"
  by (simp add: trimTrailingZeros_def)


lemma trim_length: "length (trimTrailingZeros s) \<le> length s"
  using length_dropWhile_le[of "\<lambda>c. c = CHR ''0''" "rev s"]
  by (simp add: trimTrailingZeros_def)


lemma trim_set: "set (trimTrailingZeros s) \<subseteq> set s"
  by (auto simp: trimTrailingZeros_def dest: set_dropWhileD)


lemma splitOn_none: "c \<notin> set w \<Longrightarrow> splitOn c w = [w]"
proof (induction w)
  case Nil
  show ?case by simp
next
  case (Cons a w)
  have ac: "a \<noteq> c"
  proof
    assume "a = c"
    with Cons.prems show False by simp
  qed
  from Cons have "splitOn c w = [w]" by simp
  with ac show ?case by simp
qed

lemma splitOn_one: "c \<notin> set w \<Longrightarrow> c \<notin> set f \<Longrightarrow> splitOn c (w @ c # f) = [w, f]"
proof (induction w)
  case Nil
  then show ?case by (simp add: splitOn_none)
next
  case (Cons a w)
  have ac: "a \<noteq> c"
  proof
    assume "a = c"
    with Cons.prems show False by simp
  qed
  from Cons have "splitOn c (w @ c # f) = [w, f]" by simp
  with ac show ?case by simp
qed

lemma not_digit_dot: "\<not> isDigit (CHR ''.'')" "\<not> isDigit (CHR ''-'')"
  by (simp_all add: isDigit_def)

lemma digits_no_dot: "list_all isDigit s \<Longrightarrow> CHR ''.'' \<notin> set s"
  using not_digit_dot by (auto simp: list_all_iff)

lemma digits_no_minus: "list_all isDigit s \<Longrightarrow> CHR ''-'' \<notin> set s"
  using not_digit_dot by (auto simp: list_all_iff)

lemma matchesDecimal_shape:
  assumes "list_all isDigit W" "W \<noteq> []" "list_all isDigit F"
  shows "matchesDecimal (W @ CHR ''.'' # F)" "matchesDecimal (CHR ''-'' # W @ CHR ''.'' # F)"
    "matchesDecimal W" "matchesDecimal (CHR ''-'' # W)"
proof -
  from assms obtain w0 W' where W: "W = w0 # W'" by (cases W) auto
  with assms have w0: "w0 \<noteq> CHR ''-''" using not_digit_dot by auto
  have all: "list_all (\<lambda>c. isDigit c \<or> c = CHR ''.'') (W @ CHR ''.'' # F)"
    using assms by (auto simp: list_all_iff)
  have allW: "list_all (\<lambda>c. isDigit c \<or> c = CHR ''.'') W"
    using assms by (auto simp: list_all_iff)
  show "matchesDecimal (W @ CHR ''.'' # F)"
    using all w0 W by (simp add: matchesDecimal_def)
  show "matchesDecimal (CHR ''-'' # W @ CHR ''.'' # F)"
    using all W by (simp add: matchesDecimal_def)
  show "matchesDecimal W" using allW w0 W by (simp add: matchesDecimal_def)
  show "matchesDecimal (CHR ''-'' # W)" using allW W by (simp add: matchesDecimal_def)
qed

lemma parse_pos:
  assumes d: "d \<le> 256" and m: "matchesDecimal v"
    and sg: "take 1 v \<noteq> ''-''"
    and v: "v \<noteq> ''.''" and sp: "splitOn (CHR ''.'') v = W # rest"
    and rest: "rest = [] \<and> F = ''0'' \<or> rest = [F] \<and> F \<noteq> []"
    and W: "W \<noteq> []"
    and len: "length (trimTrailingZeros F) \<le> d"
    and T: "T = (if trimTrailingZeros F = [] then ''0'' else trimTrailingZeros F)"
  shows "parseUnits v (Own d) =
     Inr (int (decVal W) * 10 ^ d + int (decVal (T @ replicate (d - length T) (CHR ''0''))))"
  using rest
proof
  assume r: "rest = [] \<and> F = ''0''"
  show ?thesis
    unfolding parseUnits_def
    using d m v W len r T sg
    by (simp add: sp Let_def not_less)
next
  assume r: "rest = [F] \<and> F \<noteq> []"
  show ?thesis
    unfolding parseUnits_def
    using d m v W len r T sg
    by (simp add: sp Let_def not_less)
qed

lemma parse_neg:
  assumes d: "d \<le> 256" and m: "matchesDecimal (CHR ''-'' # v)"
    and v: "v \<noteq> ''.''" and sp: "splitOn (CHR ''.'') v = W # rest"
    and rest: "rest = [] \<and> F = ''0'' \<or> rest = [F] \<and> F \<noteq> []"
    and W: "W \<noteq> []"
    and len: "length (trimTrailingZeros F) \<le> d"
    and T: "T = (if trimTrailingZeros F = [] then ''0'' else trimTrailingZeros F)"
  shows "parseUnits (CHR ''-'' # v) (Own d) =
     Inr (- (int (decVal W) * 10 ^ d + int (decVal (T @ replicate (d - length T) (CHR ''0'')))))"
  using rest
proof
  assume r: "rest = [] \<and> F = ''0''"
  show ?thesis
    unfolding parseUnits_def
    using d m v W len r T
    by (simp add: sp Let_def not_less)
next
  assume r: "rest = [F] \<and> F \<noteq> []"
  show ?thesis
    unfolding parseUnits_def
    using d m v W len r T
    by (simp add: sp Let_def not_less)
qed

lemma format_parse:
  assumes d: "d \<le> 256"
  shows "\<exists>s. formatUnits n (Own d) = Inr s \<and> parseUnits s (Own d) = Inr n"
proof -
  define v where "v = nat \<bar>n\<bar>"
  define W where "W = decDigits (v div 10 ^ d)"
  define F0 where "F0 = decDigits (v mod 10 ^ d)"
  define F1 where "F1 = replicate (d - length F0) (CHR ''0'') @ F0"
  define F where "F = (if trimTrailingZeros F1 = [] then ''0'' else trimTrailingZeros F1)"
  define str where "str = (if d = 0 then W else W @ CHR ''.'' # F)"
  have fmt: "formatUnits n (Own d) = Inr (if n < 0 then CHR ''-'' # str else str)"
    using d by (simp add: formatUnits_def Let_def v_def W_def F0_def F1_def F_def str_def)
  have Wd: "list_all isDigit W" and Wne: "W \<noteq> []"
    by (simp_all add: W_def decDigits_digits decDigits_ne)
  from Wne obtain w0 W' where Wc: "W = w0 # W'" by (cases W) auto
  with Wd have w0: "w0 \<noteq> CHR ''-''" using not_digit_dot by auto
  have zd: "isDigit (CHR ''0'')" by (simp add: isDigit_def)
  have F1d: "list_all isDigit F1"
    using zd decDigits_digits[of "v mod 10 ^ d"] by (auto simp: F1_def F0_def list_all_iff)
  have Fd: "list_all isDigit F"
    using F1d trim_set[of F1] zd by (auto simp: F_def list_all_iff)
  have Fne: "F \<noteq> []" by (simp add: F_def)
  have F1v: "decVal F1 = v mod 10 ^ d"
    by (simp add: F1_def decVal_zeros_left F0_def decVal_decDigits)
  have tF: "trimTrailingZeros F = trimTrailingZeros F1"
    by (simp add: F_def trim_idem trim_zero)
  have TF: "(if trimTrailingZeros F = [] then ''0'' else trimTrailingZeros F) = F"
    unfolding tF by (simp add: F_def)
  have val: "int (decVal W) * 10 ^ d + int (v mod 10 ^ d) = int v"
  proof -
    have "decVal W * 10 ^ d + v mod 10 ^ d = v"
      by (simp add: W_def decVal_decDigits div_mult_mod_eq)
    then have "int (decVal W * 10 ^ d + v mod 10 ^ d) = int v" by simp
    then show ?thesis by simp
  qed
  have sgn: "(if n < 0 then - int v else int v) = n" by (simp add: v_def)
  have parse: "parseUnits str (Own d) = Inr (int v)
             \<and> parseUnits (CHR ''-'' # str) (Own d) = Inr (- int v)"
  proof (cases "d = 0")
    case True
    then have s: "str = W" by (simp add: str_def)
    have sp: "splitOn (CHR ''.'') W = W # []" using digits_no_dot[OF Wd] by (simp add: splitOn_none)
    have nd: "W \<noteq> ''.''" using Wd not_digit_dot by auto
    have r: "[] = [] \<and> ''0'' = ''0'' \<or> [] = [''0''] \<and> ''0'' \<noteq> []" by simp
    have l: "length (trimTrailingZeros ''0'') \<le> d" by (simp add: trim_zero)
    have T: "''0'' = (if trimTrailingZeros ''0'' = [] then ''0'' else trimTrailingZeros ''0'')"
      by (simp add: trim_zero)
    have tk: "take 1 W \<noteq> ''-''" using Wc w0 by simp
    from parse_pos[OF d matchesDecimal_shape(3)[OF Wd Wne Fd] tk nd sp r Wne l T]
      parse_neg[OF d matchesDecimal_shape(4)[OF Wd Wne Fd] nd sp r Wne l T]
      val True
    show ?thesis unfolding s by (simp add: decVal_def digitVal_def)
  next
    case False
    then have dpos: "0 < d" by simp
    have s: "str = W @ CHR ''.'' # F" using False by (simp add: str_def)
    have sp: "splitOn (CHR ''.'') (W @ CHR ''.'' # F) = W # [F]"
      using digits_no_dot[OF Wd] digits_no_dot[OF Fd] by (simp add: splitOn_one)
    have nd: "W @ CHR ''.'' # F \<noteq> ''.''" using Wc by simp
    have r: "[F] = [] \<and> F = ''0'' \<or> [F] = [F] \<and> F \<noteq> []" using Fne by simp
    have lF0: "length F0 \<le> d" unfolding F0_def by (rule length_decDigits[OF dpos]) simp
    then have lF1: "length F1 = d" by (simp add: F1_def)
    have l: "length (trimTrailingZeros F) \<le> d"
      using trim_length[of F1] lF1 by (simp add: tF)
    obtain k where k: "F1 = trimTrailingZeros F1 @ replicate k (CHR ''0'')"
      using trim_decomp by blast
    have fv: "decVal (F @ replicate (d - length F) (CHR ''0'')) = v mod 10 ^ d"
    proof (cases "trimTrailingZeros F1 = []")
      case True
      with k have "F1 = replicate k (CHR ''0'')" by simp
      then have "decVal F1 = 0" using decVal_zeros_left[of k "[]"] by (simp add: decVal_def)
      with F1v have z: "v mod 10 ^ d = 0" by simp
      from True have "F = ''0''" by (simp add: F_def)
      then have "F @ replicate (d - length F) (CHR ''0'') = replicate (Suc (d - 1)) (CHR ''0'')"
        by simp
      then have "decVal (F @ replicate (d - length F) (CHR ''0'')) = 0"
        using decVal_zeros_left[of "Suc (d - 1)" "[]"] by (simp add: decVal_def)
      with z show ?thesis by simp
    next
      case False
      then have FT: "F = trimTrailingZeros F1" by (simp add: F_def)
      from k lF1 have "length (trimTrailingZeros F1) + k = d"
        by (metis length_append length_replicate)
      then have "k = d - length F" using FT by simp
      with k FT have "F @ replicate (d - length F) (CHR ''0'') = F1" by simp
      with F1v show ?thesis by simp
    qed
    have tk: "take 1 (W @ CHR ''.'' # F) \<noteq> ''-''" using Wc w0 by simp
    from parse_pos[OF d matchesDecimal_shape(1)[OF Wd Wne Fd] tk nd sp r Wne l TF[symmetric]]
      parse_neg[OF d matchesDecimal_shape(2)[OF Wd Wne Fd] nd sp r Wne l TF[symmetric]]
      val fv
    show ?thesis unfolding s by simp
  qed
  show ?thesis
  proof (cases "n < 0")
    case True
    with fmt parse sgn show ?thesis by auto
  next
    case False
    with fmt parse sgn show ?thesis by auto
  qed
qed

lemma digitVal_01: "digitVal (CHR ''0'') = 0" "digitVal (CHR ''1'') = 1"
  by (simp_all add: digitVal_def)

lemma parse_100: "parseUnits ''100'' (Own 6) = Inr 100000000"
proof -
  have t: "trimTrailingZeros ''0'' = []" by (rule trim_zero)
  have z: "decVal (''0'' @ replicate 5 (CHR ''0'')) = 0"
    using decVal_zeros_left[of 6 "[]"] by (simp add: decVal_def eval_nat_numeral)
  have w: "decVal ''100'' = 100" by (simp add: decVal_def digitVal_01)
  have m: "matchesDecimal ''100''" by (simp add: matchesDecimal_def isDigit_def)
  show ?thesis
    using z w m by (simp add: parseUnits_def Let_def t)
qed

lemma format_100: "formatUnits 100000000 (Own 6) = Inr ''100.0''"
proof -
  have a: "decDigits 100 = ''100''"
    by (simp add: decDigits.simps[of 100] decDigits.simps[of 10] decDigits.simps[of "Suc 0"]
          digitChar_def)
  have b: "decDigits 0 = ''0''" by (simp add: decDigits.simps[of 0] digitChar_def)
  show ?thesis
    by (simp add: formatUnits_def Let_def a b trimTrailingZeros_def)
qed

lemma table_decimals:
  assumes "map_of decimalConverter chainId = Some chainDecimals"
    and "map_of chainDecimals token = Some d"
  shows "d = 6 \<or> d = 18"
proof -
  from assms(1) have "chainId = 11155111 \<or> chainId = 1"
    by (auto simp: decimalConverter_def split: if_splits)
  then show ?thesis
  proof
    assume "chainId = 11155111"
    with assms(1) have "chainDecimals = the (map_of decimalConverter 11155111)" by simp
    with assms(2) show ?thesis
      by (simp add: decimalConverter_def split: if_splits)
  next
    assume "chainId = 1"
    with assms(1) have "chainDecimals = the (map_of decimalConverter 1)" by simp
    with assms(2) show ?thesis
      by (simp add: decimalConverter_def split: if_splits)
  qed
qed

lemma splitOn_unfold:
  "splitOn c v = takeWhile (\<lambda>x. x \<noteq> c) v #
     (case dropWhile (\<lambda>x. x \<noteq> c) v of [] \<Rightarrow> [] | y # r \<Rightarrow> splitOn c r)"
proof (induction v)
  case Nil
  show ?case by simp
next
  case (Cons x xs)
  show ?case
  proof (cases "x = c")
    case True
    then show ?thesis by simp
  next
    case False
    have "splitOn c (x # xs) = (case splitOn c xs of [] \<Rightarrow> [[x]] | w # ws \<Rightarrow> (x # w) # ws)"
      using False by simp
    also have "\<dots> = (x # takeWhile (\<lambda>x. x \<noteq> c) xs) #
        (case dropWhile (\<lambda>x. x \<noteq> c) xs of [] \<Rightarrow> [] | y # r \<Rightarrow> splitOn c r)"
      by (subst Cons.IH) simp
    finally show ?thesis using False by simp
  qed
qed

lemma splitOn_ne: "splitOn c v \<noteq> []"
  by (subst splitOn_unfold) simp

lemma splitOn_many: "c \<in> set r \<Longrightarrow> 2 \<le> length (splitOn c r)"
proof (induction r)
  case Nil
  then show ?case by simp
next
  case (Cons x xs)
  show ?case
  proof (cases "x = c")
    case True
    obtain w ws where "splitOn c xs = w # ws" using splitOn_ne[of c xs] by (cases "splitOn c xs") auto
    with True show ?thesis by simp
  next
    case False
    with Cons.prems have "c \<in> set xs" by auto
    from Cons.IH[OF this] obtain w w' ws where "splitOn c xs = w # w' # ws"
      by (cases "splitOn c xs"; cases "tl (splitOn c xs)") auto
    with False show ?thesis by simp
  qed
qed

lemma body_parts:
  "amountBody s = wholePart s @ dropWhile (\<lambda>c. c \<noteq> CHR ''.'') (amountBody s)"
  "dropWhile (\<lambda>c. c \<noteq> CHR ''.'') (amountBody s) = []
   \<or> dropWhile (\<lambda>c. c \<noteq> CHR ''.'') (amountBody s) = CHR ''.'' # fractionPart s"
  "CHR ''.'' \<notin> set (wholePart s)"
proof -
  show "amountBody s = wholePart s @ dropWhile (\<lambda>c. c \<noteq> CHR ''.'') (amountBody s)"
    by (simp add: wholePart_def)
  show "dropWhile (\<lambda>c. c \<noteq> CHR ''.'') (amountBody s) = []
   \<or> dropWhile (\<lambda>c. c \<noteq> CHR ''.'') (amountBody s) = CHR ''.'' # fractionPart s"
  proof (cases "dropWhile (\<lambda>c. c \<noteq> CHR ''.'') (amountBody s)")
    case Nil
    then show ?thesis by simp
  next
    case (Cons y r)
    then have "dropWhile (\<lambda>c. c \<noteq> CHR ''.'') (amountBody s) \<noteq> []" by simp
    from hd_dropWhile[OF this] Cons have "y = CHR ''.''" by simp
    with Cons show ?thesis by (simp add: fractionPart_def)
  qed
  show "CHR ''.'' \<notin> set (wholePart s)"
    by (auto simp: wholePart_def dest: set_takeWhileD)
qed

lemma split_parts:
  "CHR ''.'' \<notin> set (fractionPart s) \<Longrightarrow>
     length (splitOn (CHR ''.'') (amountBody s)) \<le> 2
     \<and> (case splitOn (CHR ''.'') (amountBody s) of [] \<Rightarrow> [] | w # r \<Rightarrow> w) = wholePart s
     \<and> (case splitOn (CHR ''.'') (amountBody s) of w # f # r \<Rightarrow> f | _ \<Rightarrow> []) = fractionPart s"
  "CHR ''.'' \<in> set (fractionPart s) \<Longrightarrow> 2 < length (splitOn (CHR ''.'') (amountBody s))"
proof -
  let ?D = "dropWhile (\<lambda>c. c \<noteq> CHR ''.'') (amountBody s)"
  have sp: "splitOn (CHR ''.'') (amountBody s) = wholePart s #
              (case ?D of [] \<Rightarrow> [] | y # r \<Rightarrow> splitOn (CHR ''.'') r)"
    by (subst splitOn_unfold) (simp add: wholePart_def)
  {
    assume nd: "CHR ''.'' \<notin> set (fractionPart s)"
    from body_parts(2)[of s]
    show "length (splitOn (CHR ''.'') (amountBody s)) \<le> 2
     \<and> (case splitOn (CHR ''.'') (amountBody s) of [] \<Rightarrow> [] | w # r \<Rightarrow> w) = wholePart s
     \<and> (case splitOn (CHR ''.'') (amountBody s) of w # f # r \<Rightarrow> f | _ \<Rightarrow> []) = fractionPart s"
    proof
      assume e: "?D = []"
      have f0: "fractionPart s = []" unfolding fractionPart_def e by simp
      have "splitOn (CHR ''.'') (amountBody s) = [wholePart s]" unfolding sp e by simp
      with f0 show ?thesis by simp
    next
      assume e: "?D = CHR ''.'' # fractionPart s"
      with sp splitOn_none[OF nd] show ?thesis by simp
    qed
  }
  {
    assume d: "CHR ''.'' \<in> set (fractionPart s)"
    then have "fractionPart s \<noteq> []" by auto
    then have "drop 1 ?D \<noteq> []" unfolding fractionPart_def .
    then have "?D \<noteq> []" by (cases ?D) simp_all
    with body_parts(2)[of s] have e: "?D = CHR ''.'' # fractionPart s" by blast
    from splitOn_many[OF d] sp e
    show "2 < length (splitOn (CHR ''.'') (amountBody s))" by simp
  }
qed

lemma isAmount_iff:
  "isAmount s \<longleftrightarrow>
     matchesDecimal s \<and> amountBody s \<noteq> ''.'' \<and> CHR ''.'' \<notin> set (fractionPart s)"
proof -
  let ?v = "amountBody s"
  let ?D = "dropWhile (\<lambda>c. c \<noteq> CHR ''.'') ?v"
  let ?W = "wholePart s"
  let ?F = "fractionPart s"
  have m: "matchesDecimal s = (?v \<noteq> [] \<and> list_all (\<lambda>c. isDigit c \<or> c = CHR ''.'') ?v)"
    by (simp add: matchesDecimal_def amountBody_def amountNegative_def)
  note v = body_parts(1)[of s]
  note D = body_parts(2)[of s]
  note Wnd = body_parts(3)[of s]
  have F: "?F = drop 1 ?D" by (simp add: fractionPart_def)
  show ?thesis
  proof
    assume a: "isAmount s"
    then have Wd: "list_all isDigit ?W" and Fd: "list_all isDigit ?F"
      and ne: "?W \<noteq> [] \<or> ?F \<noteq> []"
      by (simp_all add: isAmount_def)
    have Wall: "list_all (\<lambda>c. isDigit c \<or> c = CHR ''.'') ?W"
      using Wd by (simp add: list_all_iff)
    have Fall: "list_all (\<lambda>c. isDigit c \<or> c = CHR ''.'') ?F"
      using Fd by (simp add: list_all_iff)
    have Dall: "list_all (\<lambda>c. isDigit c \<or> c = CHR ''.'') ?D"
      using D
    proof
      assume e: "?D = []"
      show ?thesis unfolding e by simp
    next
      assume e: "?D = CHR ''.'' # ?F"
      show ?thesis unfolding e using Fall by simp
    qed
    have "list_all (\<lambda>c. isDigit c \<or> c = CHR ''.'') (?W @ ?D)"
      using Wall Dall by simp
    then have all: "list_all (\<lambda>c. isDigit c \<or> c = CHR ''.'') ?v" using v by simp
    have vne: "?v \<noteq> []"
    proof
      assume e: "?v = []"
      then have "?W = []" "?F = []" by (simp_all add: wholePart_def fractionPart_def)
      with ne show False by simp
    qed
    have vnd: "?v \<noteq> ''.''"
    proof
      assume e: "?v = ''.''"
      then have "?W = []" "?F = []" by (simp_all add: wholePart_def fractionPart_def)
      with ne show False by simp
    qed
    from m all vne vnd digits_no_dot[OF Fd]
    show "matchesDecimal s \<and> ?v \<noteq> ''.'' \<and> CHR ''.'' \<notin> set ?F" by simp
  next
    assume a: "matchesDecimal s \<and> ?v \<noteq> ''.'' \<and> CHR ''.'' \<notin> set ?F"
    with m have vne: "?v \<noteq> []" and all: "list_all (\<lambda>c. isDigit c \<or> c = CHR ''.'') ?v"
      and vnd: "?v \<noteq> ''.''" and Fnd: "CHR ''.'' \<notin> set ?F"
      by simp_all
    have "list_all (\<lambda>c. isDigit c \<or> c = CHR ''.'') (?W @ ?D)" using all v by simp
    then have Wall: "list_all (\<lambda>c. isDigit c \<or> c = CHR ''.'') ?W"
      and Dall: "list_all (\<lambda>c. isDigit c \<or> c = CHR ''.'') ?D"
      by simp_all
    have Wd: "list_all isDigit ?W" using Wall Wnd by (auto simp: list_all_iff)
    have "set ?F \<subseteq> set ?D" using F by (auto dest: in_set_dropD)
    then have Fd: "list_all isDigit ?F" using Dall Fnd by (auto simp: list_all_iff)
    have ne: "?W \<noteq> [] \<or> ?F \<noteq> []"
    proof (rule ccontr)
      assume "\<not> (?W \<noteq> [] \<or> ?F \<noteq> [])"
      then have W0: "?W = []" and F0: "?F = []" by simp_all
      from D have "?v = [] \<or> ?v = ''.''"
      proof
        assume "?D = []"
        with v W0 show ?thesis by simp
      next
        assume "?D = CHR ''.'' # ?F"
        with v W0 F0 show ?thesis by simp
      qed
      with vne vnd show False by simp
    qed
    from Wd Fd ne show "isAmount s" by (simp add: isAmount_def)
  qed
qed

lemma decVal_append: "decVal (a @ b) = decVal a * 10 ^ length b + decVal b"
proof (induction b rule: rev_induct)
  case Nil
  show ?case by (simp add: decVal_def)
next
  case (snoc x xs)
  have "decVal (a @ xs @ [x]) = 10 * decVal (a @ xs) + digitVal x"
    using decVal_snoc[of "a @ xs" x] by simp
  also have "\<dots> = 10 * (decVal a * 10 ^ length xs + decVal xs) + digitVal x"
    by (simp only: snoc.IH)
  also have "\<dots> = decVal a * 10 ^ length (xs @ [x]) + (10 * decVal xs + digitVal x)"
    by (simp add: algebra_simps)
  also have "\<dots> = decVal a * 10 ^ length (xs @ [x]) + decVal (xs @ [x])"
    by (simp only: decVal_snoc)
  finally show ?case .
qed

lemma decVal_zeros: "decVal (replicate k (CHR ''0'')) = 0"
  using decVal_zeros_left[of k "[]"] by (simp add: decVal_def)

lemma decVal_zeros_right: "decVal (a @ replicate k (CHR ''0'')) = decVal a * 10 ^ k"
  by (simp add: decVal_append decVal_zeros)

lemma fraction_value:
  assumes len: "length (trimTrailingZeros F) \<le> d"
  shows "decVal ((if trimTrailingZeros F = [] then ''0'' else trimTrailingZeros F)
                 @ replicate (d - length (if trimTrailingZeros F = [] then ''0''
                                          else trimTrailingZeros F)) (CHR ''0''))
           * 10 ^ length F
         = decVal F * 10 ^ d"
proof -
  let ?T = "trimTrailingZeros F"
  obtain k where k: "F = ?T @ replicate k (CHR ''0'')" using trim_decomp by blast
  have lenF: "length F = length ?T + k"
    using arg_cong[OF k, where f = length] by simp
  have "decVal (?T @ replicate k (CHR ''0'')) = decVal ?T * 10 ^ k"
    by (rule decVal_zeros_right)
  then have valF: "decVal F = decVal ?T * 10 ^ k" using k[symmetric] by simp
  show ?thesis
  proof (cases "?T = []")
    case True
    have "''0'' @ replicate (d - 1) (CHR ''0'') = replicate (Suc (d - 1)) (CHR ''0'')"
      by simp
    then have "decVal (''0'' @ replicate (d - 1) (CHR ''0'')) = 0"
      by (simp only: decVal_zeros)
    moreover have "decVal F = 0" using valF True by (simp add: decVal_def)
    ultimately show ?thesis using True by simp
  next
    case False
    have "decVal (?T @ replicate (d - length ?T) (CHR ''0'')) * 10 ^ length F
            = decVal ?T * (10 ^ (d - length ?T) * 10 ^ (length ?T + k))"
      by (simp add: decVal_zeros_right lenF)
    also have "\<dots> = decVal ?T * 10 ^ ((d - length ?T) + (length ?T + k))"
      by (simp only: power_add)
    also have "(d - length ?T) + (length ?T + k) = k + d" using len by simp
    also have "decVal ?T * 10 ^ (k + d) = decVal F * 10 ^ d"
      by (simp add: valF power_add)
    finally show ?thesis using False by simp
  qed
qed

lemma trim_fraction_default:
  "trimTrailingZeros (if F = [] then ''0'' else F) = trimTrailingZeros F"
  by (simp add: trim_zero) (simp add: trimTrailingZeros_def)

lemma whole_default: "decVal (if W = [] then ''0'' else W) = decVal W"
  by (simp add: decVal_def digitVal_01)

lemma parseUnits_amount:
  assumes d: "d \<le> 256"
  shows "parseUnits s (Own d) =
     (if \<not> isAmount s then
        Inl (libError (if \<not> matchesDecimal s then ''invalid decimal value''
                       else if amountBody s = ''.'' then ''missing value''
                       else ''too many decimal points''))
      else if d < length (trimTrailingZeros (fractionPart s))
        then Inl (libError ''fractional component exceeds decimals'')
      else
        Inr ((if amountNegative s then - 1 else 1) *
             (int (decVal (wholePart s)) * 10 ^ d
              + int (decVal ((if trimTrailingZeros (fractionPart s) = [] then ''0''
                              else trimTrailingZeros (fractionPart s))
                     @ replicate (d - length (if trimTrailingZeros (fractionPart s) = [] then ''0''
                              else trimTrailingZeros (fractionPart s))) (CHR ''0''))))))"
proof -
  have n: "(take 1 s = ''-'') = amountNegative s" by (simp add: amountNegative_def)
  show ?thesis
  proof (cases "matchesDecimal s")
    case False
    then have "\<not> isAmount s" by (simp add: isAmount_iff)
    with False d show ?thesis by (simp add: parseUnits_def)
  next
    case m: True
    show ?thesis
    proof (cases "amountBody s = ''.''")
      case True
      then have na: "\<not> isAmount s" by (simp add: isAmount_iff)
      show ?thesis
        unfolding parseUnits_def Let_def n amountBody_def[symmetric]
        using m True d na by simp
    next
      case nd: False
      show ?thesis
      proof (cases "CHR ''.'' \<in> set (fractionPart s)")
        case True
        then have na: "\<not> isAmount s" by (simp add: isAmount_iff)
        show ?thesis
          unfolding parseUnits_def Let_def n amountBody_def[symmetric]
          using split_parts(2)[OF True] m nd d na by simp
      next
        case False
        then have a: "isAmount s" using m nd by (simp add: isAmount_iff)
        note sp = split_parts(1)[OF False]
        from sp have l: "\<not> 2 < length (splitOn (CHR ''.'') (amountBody s))" by simp
        from sp have w: "(case splitOn (CHR ''.'') (amountBody s) of [] \<Rightarrow> [] | w # r \<Rightarrow> w) = wholePart s"
          by simp
        from sp have f: "(case splitOn (CHR ''.'') (amountBody s) of w # f # r \<Rightarrow> f | _ \<Rightarrow> []) = fractionPart s"
          by simp
        show ?thesis
          unfolding parseUnits_def Let_def n amountBody_def[symmetric] w f
          using m nd d a l
          by (simp add: trim_fraction_default whole_default)
      qed
    qed
  qed
qed

lemma parse_accepted:
  assumes d: "d \<le> 256" and p: "parseUnits s (Own d) = Inr base"
  shows "isAmount s \<and> length (trimTrailingZeros (fractionPart s)) \<le> d"
  using p unfolding parseUnits_amount[OF d] by (simp split: if_splits)

lemma parse_value:
  assumes d: "d \<le> 256" and a: "isAmount s"
    and len: "length (trimTrailingZeros (fractionPart s)) \<le> d"
  shows "\<exists>base. parseUnits s (Own d) = Inr base
           \<and> base * 10 ^ amountScale s = amountDigits s * 10 ^ d"
proof -
  let ?W = "wholePart s"
  let ?F = "fractionPart s"
  define X where "X = decVal ((if trimTrailingZeros ?F = [] then ''0'' else trimTrailingZeros ?F)
                 @ replicate (d - length (if trimTrailingZeros ?F = [] then ''0''
                                          else trimTrailingZeros ?F)) (CHR ''0''))"
  have p: "parseUnits s (Own d) =
             Inr ((if amountNegative s then - 1 else 1) * (int (decVal ?W) * 10 ^ d + int X))"
    unfolding parseUnits_amount[OF d] X_def using a len by simp
  have N: "(decVal ?W * 10 ^ d + X) * 10 ^ length ?F = decVal (?W @ ?F) * 10 ^ d"
  proof -
    have "(decVal ?W * 10 ^ d + X) * 10 ^ length ?F
            = decVal ?W * 10 ^ d * 10 ^ length ?F + X * 10 ^ length ?F"
      by (simp add: algebra_simps)
    also have "X * 10 ^ length ?F = decVal ?F * 10 ^ d"
      unfolding X_def by (rule fraction_value[OF len])
    also have "decVal ?W * 10 ^ d * 10 ^ length ?F + decVal ?F * 10 ^ d
                 = (decVal ?W * 10 ^ length ?F + decVal ?F) * 10 ^ d"
      by (simp add: algebra_simps)
    also have "\<dots> = decVal (?W @ ?F) * 10 ^ d" by (simp only: decVal_append)
    finally show ?thesis .
  qed
  have I: "(int (decVal ?W) * 10 ^ d + int X) * 10 ^ length ?F = int (decVal (?W @ ?F)) * 10 ^ d"
    using arg_cong[OF N, where f = int] by simp
  have "((if amountNegative s then - 1 else 1) * (int (decVal ?W) * 10 ^ d + int X))
          * 10 ^ amountScale s = amountDigits s * 10 ^ d"
  proof (cases "amountNegative s")
    case True
    have "(- 1 * (int (decVal ?W) * 10 ^ d + int X)) * 10 ^ length ?F
            = - ((int (decVal ?W) * 10 ^ d + int X) * 10 ^ length ?F)"
      by (simp only: mult_minus1 mult_minus_left)
    also have "\<dots> = - (int (decVal (?W @ ?F)) * 10 ^ d)" by (simp only: I)
    finally have "(- 1 * (int (decVal ?W) * 10 ^ d + int X)) * 10 ^ length ?F
                    = (- int (decVal (?W @ ?F))) * 10 ^ d"
      by (simp only: mult_minus_left)
    then show ?thesis unfolding amountDigits_def amountScale_def using True by (simp only: if_True)
  next
    case False
    then show ?thesis using I by (simp add: amountDigits_def amountScale_def)
  qed
  with p show ?thesis by blast
qed

lemma parse_overprecise:
  assumes d: "d \<le> 256" and a: "isAmount s"
    and len: "d < length (trimTrailingZeros (fractionPart s))"
  shows "parseUnits s (Own d) = Inl (libError ''fractional component exceeds decimals'')"
  unfolding parseUnits_amount[OF d] using a len by simp

lemma parse_not_amount:
  assumes d: "d \<le> 256" and a: "\<not> isAmount s"
  shows "\<exists>e. parseUnits s (Own d) = Inl e"
  unfolding parseUnits_amount[OF d] using a by simp

lemma same_number:
  fixes base da ds :: int
  assumes "base * 10 ^ sa = da * 10 ^ d" and "base * 10 ^ ss = ds * 10 ^ d"
  shows "ds * 10 ^ sa = da * 10 ^ ss"
proof -
  have "(ds * 10 ^ sa) * 10 ^ d = (ds * 10 ^ d) * 10 ^ sa" by (simp add: algebra_simps)
  also have "\<dots> = (base * 10 ^ ss) * 10 ^ sa" by (simp only: assms(2))
  also have "\<dots> = (base * 10 ^ sa) * 10 ^ ss" by (simp add: algebra_simps)
  also have "\<dots> = (da * 10 ^ d) * 10 ^ ss" by (simp only: assms(1))
  also have "\<dots> = (da * 10 ^ ss) * 10 ^ d" by (simp add: algebra_simps)
  finally show ?thesis by simp
qed

lemma round_trip_value:
  assumes d: "d \<le> 256" and a: "isAmount s"
    and len: "length (trimTrailingZeros (fractionPart s)) \<le> d"
  shows "\<exists>base shown. parseUnits s (Own d) = Inr base
           \<and> base * 10 ^ amountScale s = amountDigits s * 10 ^ d
           \<and> formatUnits base (Own d) = Inr shown
           \<and> isAmount shown
           \<and> amountDigits shown * 10 ^ amountScale s = amountDigits s * 10 ^ amountScale shown
           \<and> parseUnits shown (Own d) = Inr base"
proof -
  from parse_value[OF d a len] obtain base where
    p: "parseUnits s (Own d) = Inr base" and v: "base * 10 ^ amountScale s = amountDigits s * 10 ^ d"
    by blast
  from format_parse[OF d, of base] obtain shown where
    f: "formatUnits base (Own d) = Inr shown" and q: "parseUnits shown (Own d) = Inr base"
    by blast
  from parse_accepted[OF d q] have a': "isAmount shown"
    and len': "length (trimTrailingZeros (fractionPart shown)) \<le> d" by simp_all
  from parse_value[OF d a' len'] q
  have v': "base * 10 ^ amountScale shown = amountDigits shown * 10 ^ d" by simp
  from same_number[OF v v'] p v f a' q show ?thesis by blast
qed

lemma usdc_decimals:
  "map_of (the (map_of decimalConverter 1)) ''0xA0b86991c6218b36c1d19D4a2e9Eb0cE3606eB48'' = Some 6"
  by (simp add: decimalConverter_def)

lemma amount_100: "isAmount ''100''" "fractionPart ''100'' = []"
  "amountDigits ''100'' = 100" "amountScale ''100'' = 0"
  "isAmount ''100.0''" "amountDigits ''100.0'' = 1000" "amountScale ''100.0'' = 1"
  by (simp_all add: isAmount_def wholePart_def fractionPart_def amountBody_def amountNegative_def
        amountDigits_def amountScale_def isDigit_def decVal_def digitVal_01)

lemma amount_overprecise:
  "isAmount ''0.1234567''" "trimTrailingZeros (fractionPart ''0.1234567'') = ''1234567''"
  by (simp_all add: isAmount_def wholePart_def fractionPart_def amountBody_def amountNegative_def
        isDigit_def trimTrailingZeros_def)

lemma amount_two_points: "\<not> isAmount ''1.2.3''"
  by (simp add: isAmount_def wholePart_def fractionPart_def amountBody_def amountNegative_def
        isDigit_def)

text \<open>
  Claim C9, as amended. For every chain and token of the decimal table, with precision
  \<open>d\<close>: an amount string with at most \<open>d\<close> fractional digits (trailing zeros apart)
  converts to exactly the number it denotes times \<open>10 ^ d\<close>; formatting these base
  units at precision \<open>d\<close> gives an amount string that denotes the same number and
  converts to the same base units (the string itself may differ in trailing zeros:
  \<open>100\<close> comes back as \<open>100.0\<close>). An amount with more fractional digits is not
  rounded: its conversion fails, as does that of a string that is not an amount. The
  amount \<open>100\<close> at 6 decimals is 100000000 base units, and a quoted output of 200000000
  gives a minimum of 190000000 in both executors.
\<close>

theorem amount_conversion_exact:
  "(\<forall>chainId chainDecimals token d amount.
       map_of decimalConverter chainId = Some chainDecimals \<longrightarrow>
       map_of chainDecimals token = Some d \<longrightarrow>
         (isAmount amount \<and> length (trimTrailingZeros (fractionPart amount)) \<le> d \<longrightarrow>
            (\<exists>base shown.
                parseUnits amount (Own d) = Inr base
              \<and> base * 10 ^ amountScale amount = amountDigits amount * 10 ^ d
              \<and> formatUnits base (Own d) = Inr shown
              \<and> isAmount shown
              \<and> amountDigits shown * 10 ^ amountScale amount
                  = amountDigits amount * 10 ^ amountScale shown
              \<and> parseUnits shown (Own d) = Inr base))
       \<and> (isAmount amount \<and> d < length (trimTrailingZeros (fractionPart amount)) \<longrightarrow>
            parseUnits amount (Own d)
              = Inl (libError ''fractional component exceeds decimals''))
       \<and> (\<not> isAmount amount \<longrightarrow> (\<exists>e. parseUnits amount (Own d) = Inl e)))
   \<and> parseUnits ''100'' (Own 6) = Inr 100000000
   \<and> amountOutMin 200000000 = 190000000
   \<and> slippageBuyAmount (Digits 200000000) = Digits 190000000"
proof (intro conjI allI impI)
  fix chainId chainDecimals token d amount
  assume t: "map_of decimalConverter chainId = Some chainDecimals"
    "map_of chainDecimals token = Some d"
  from table_decimals[OF t] have d: "d \<le> 256" by auto
  {
    assume "isAmount amount \<and> length (trimTrailingZeros (fractionPart amount)) \<le> d"
    then show "\<exists>base shown.
                parseUnits amount (Own d) = Inr base
              \<and> base * 10 ^ amountScale amount = amountDigits amount * 10 ^ d
              \<and> formatUnits base (Own d) = Inr shown
              \<and> isAmount shown
              \<and> amountDigits shown * 10 ^ amountScale amount
                  = amountDigits amount * 10 ^ amountScale shown
              \<and> parseUnits shown (Own d) = Inr base"
      using round_trip_value[OF d] by blast
  }
  {
    assume "isAmount amount \<and> d < length (trimTrailingZeros (fractionPart amount))"
    then show "parseUnits amount (Own d)
              = Inl (libError ''fractional component exceeds decimals'')"
      using parse_overprecise[OF d] by blast
  }
  {
    assume "\<not> isAmount amount"
    then show "\<exists>e. parseUnits amount (Own d) = Inl e"
      using parse_not_amount[OF d] by blast
  }
next
  show "parseUnits ''100'' (Own 6) = Inr 100000000" by (rule parse_100)
next
  show "amountOutMin 200000000 = 190000000" by (simp add: amountOutMin_floor)
next
  show "slippageBuyAmount (Digits 200000000) = Digits 190000000"
    by (rule order_slippage_scenario)
qed

theorem amount_conversion_exact_witness:
  "map_of (the (map_of decimalConverter 1)) ''0xA0b86991c6218b36c1d19D4a2e9Eb0cE3606eB48'' = Some 6
   \<and> isAmount ''100'' \<and> length (trimTrailingZeros (fractionPart ''100'')) \<le> 6
   \<and> parseUnits ''100'' (Own 6) = Inr 100000000
   \<and> 100000000 * 10 ^ amountScale ''100'' = amountDigits ''100'' * 10 ^ 6
   \<and> formatUnits 100000000 (Own 6) = Inr ''100.0''
   \<and> isAmount ''100.0''
   \<and> amountDigits ''100.0'' * 10 ^ amountScale ''100''
       = amountDigits ''100'' * 10 ^ amountScale ''100.0''
   \<and> parseUnits ''100.0'' (Own 6) = Inr 100000000
   \<and> isAmount ''0.1234567'' \<and> 6 < length (trimTrailingZeros (fractionPart ''0.1234567''))
   \<and> parseUnits ''0.1234567'' (Own 6) = Inl (libError ''fractional component exceeds decimals'')
   \<and> \<not> isAmount ''1.2.3'' \<and> (\<exists>e. parseUnits ''1.2.3'' (Own 6) = Inl e)"
proof -
  have a: "map_of decimalConverter 1 = Some (the (map_of decimalConverter 1))"
    by (simp add: decimalConverter_def)
  note all = amount_conversion_exact[THEN conjunct1, rule_format, OF a usdc_decimals]
  from all[of "''100''"] amount_100 obtain base shown where
    p: "parseUnits ''100'' (Own 6) = Inr base"
    and v: "base * 10 ^ amountScale ''100'' = amountDigits ''100'' * 10 ^ 6"
    and f: "formatUnits base (Own 6) = Inr shown"
    and s: "isAmount shown"
    and n: "amountDigits shown * 10 ^ amountScale ''100''
              = amountDigits ''100'' * 10 ^ amountScale shown"
    and q: "parseUnits shown (Own 6) = Inr base"
    by (auto simp: trimTrailingZeros_def)
  from p parse_100 have base: "base = 100000000" by simp
  from f format_100 base have shown: "shown = ''100.0''" by simp
  from all[of "''0.1234567''"] amount_overprecise
  have o: "parseUnits ''0.1234567'' (Own 6) = Inl (libError ''fractional component exceeds decimals'')"
    by simp
  from all[of "''1.2.3''"] amount_two_points
  have t: "\<exists>e. parseUnits ''1.2.3'' (Own 6) = Inl e" by simp
  from p v f s n q o t show ?thesis
    unfolding base shown
    using usdc_decimals amount_100 amount_overprecise amount_two_points
    by (simp add: trimTrailingZeros_def)
qed

theorem overprecise_amount_not_rounded_counterexample:
  "map_of (the (map_of decimalConverter 1)) ''0xA0b86991c6218b36c1d19D4a2e9Eb0cE3606eB48'' = Some 6
   \<and> isAmount ''0.1234567''
   \<and> parseUnits ''0.1234567'' (Own 6) = Inl (libError ''fractional component exceeds decimals'')"
proof -
  have "parseUnits ''0.1234567'' (Own 6) = Inl (libError ''fractional component exceeds decimals'')"
    by (rule parse_overprecise) (simp_all add: amount_overprecise)
  with usdc_decimals amount_overprecise(1) show ?thesis by simp
qed

subsection \<open>Off-chain order executor\<close>

lemma bind_Inr:
  "bind m f log = (Inr y, log') \<longleftrightarrow> (\<exists>x l. m log = (Inr x, l) \<and> f x l = (Inr y, log'))"
  by (cases "m log"; cases "fst (m log)") (auto simp: bind_def)

lemma call_Inr: "call r ev log = (Inr x, l) \<longleftrightarrow> r (log @ [ev]) = Inr x \<and> l = log @ [ev]"
  by (auto simp: call_def)

lemma lift_Inr: "lift r log = (Inr x, l) \<longleftrightarrow> r = Inr x \<and> l = log"
  by (auto simp: lift_def)

lemma throw_Inr: "throw e log = (Inr x, l) \<longleftrightarrow> False"
  by (simp add: throw_def)

lemma ret_Inr: "ret v log = (Inr x, l) \<longleftrightarrow> x = v \<and> l = log"
  by (auto simp: ret_def)

lemma try_catch_Inr:
  "try_catch m h log = (Inr y, log') \<longleftrightarrow>
     m log = (Inr y, log') \<or> (\<exists>e l. m log = (Inl e, l) \<and> h e l = (Inr y, log'))"
  by (cases "m log"; cases "fst (m log)") (auto simp: try_catch_def)

lemma allowance_Inr:
  "checkAllowanceAndApproveIfNecessary env target token signer required log = (Inr u, l) \<longleftrightarrow>
     (\<exists>owner a. getAddress_r env (log @ [GetAddress signer]) = Inr owner
        \<and> allowance_r env (log @ [GetAddress signer, Allowance token owner target]) = Inr a
        \<and> (if required \<le> a then l = log @ [GetAddress signer, Allowance token owner target]
            else \<exists>h blk.
                   approve_r env (log @ [GetAddress signer, Allowance token owner target,
                                         Approve token target MaxUint256]) = Inr h
                 \<and> wait_r env (log @ [GetAddress signer, Allowance token owner target,
                                      Approve token target MaxUint256, TxWait h]) = Inr blk
                 \<and> l = log @ [GetAddress signer, Allowance token owner target,
                              Approve token target MaxUint256, TxWait h]))"
  unfolding checkAllowanceAndApproveIfNecessary_def
  by (auto simp: bind_Inr call_Inr ret_Inr)

lemma order_handler_throws:
  "(case body error of
      Some (errorType, description) \<Rightarrow>
        if errorType = ''NoLiquidity'' then throw (noLiquidity description) else throw error
    | None \<Rightarrow> throw error) l = (Inr y, log') \<longleftrightarrow> False"
  by (auto simp: throw_def split: option.splits)

text \<open>
  Claim C4, as amended. A run of the order executor that returns an order identifier has
  made exactly these calls, in this order: switch chain, get the provider, read the
  signer's address; then, with the amount converted, ensure the allowance of the vault
  relayer (read owner and allowance, and approve and wait when the allowance is too
  small); only then request the sell-side quote for the converted amount; then sign the
  quote with the fee set to zero, the sell amount set to the converted amount and the buy
  amount set to what the executor's slippage computation makes of the quoted one
  (\<open>slippageBuyAmount\<close>; which number that is, is examined in the subsection on
  slippage and is no part of this statement); then post the signed order, whose answer is
  the identifier returned.
\<close>

theorem sendOrder_steps:
  assumes "sendOrder env wallets chain fromAsset toAsset amount log = (Inr uid, log')"
  shows "\<exists>w ws chainDecimals fromAddress owner current amountDecimals approval quote0 quoteId
            signature.
      wallets = w # ws
    \<and> js_lookup supportedChains chain \<noteq> Undefined
    \<and> num_lookup decimalConverter (js_lookup supportedChains chain) = Some chainDecimals
    \<and> parseUnits amount (js_lookup chainDecimals fromAsset) = Inr amountDecimals
    \<and> allowance_r env (log @ [SwitchChain w (js_lookup supportedChains chain),
                                GetEthersProvider w, GetAddress w, GetAddress w,
                                Allowance fromAsset owner
                                  (num_lookup (COW_PROTOCOL_VAULT_RELAYER_ADDRESS env)
                                     (js_lookup supportedChains chain))]) = Inr current
    \<and> (if amountDecimals \<le> current then approval = []
        else \<exists>h. approval =
               [Approve fromAsset
                  (num_lookup (COW_PROTOCOL_VAULT_RELAYER_ADDRESS env)
                     (js_lookup supportedChains chain)) MaxUint256,
                TxWait h])
    \<and> getQuote_r env
          (log @ [SwitchChain w (js_lookup supportedChains chain), GetEthersProvider w,
                  GetAddress w, GetAddress w,
                  Allowance fromAsset owner
                    (num_lookup (COW_PROTOCOL_VAULT_RELAYER_ADDRESS env)
                       (js_lookup supportedChains chain))]
               @ approval @
                 [GetQuote (js_lookup supportedChains chain)
                    \<lparr>qr_sellToken = fromAsset, qr_buyToken = toAsset, qr_from = fromAddress,
                     qr_receiver = fromAddress, qr_sellAmountBeforeFee = amountDecimals\<rparr>])
        = Inr (quote0, quoteId)
    \<and> log' =
        log @ [SwitchChain w (js_lookup supportedChains chain), GetEthersProvider w,
               GetAddress w, GetAddress w,
               Allowance fromAsset owner
                 (num_lookup (COW_PROTOCOL_VAULT_RELAYER_ADDRESS env)
                    (js_lookup supportedChains chain))]
            @ approval @
              [GetQuote (js_lookup supportedChains chain)
                 \<lparr>qr_sellToken = fromAsset, qr_buyToken = toAsset, qr_from = fromAddress,
                  qr_receiver = fromAddress, qr_sellAmountBeforeFee = amountDecimals\<rparr>,
               SignOrder
                 (quote0\<lparr>q_feeAmount := 0, q_sellAmount := amountDecimals,
                         q_buyAmount := slippageBuyAmount (q_buyAmount quote0),
                         q_receiver := Some fromAddress\<rparr>)
                 (js_lookup supportedChains chain) w,
               PostOrder (js_lookup supportedChains chain)
                 \<lparr>o_quote = quote0\<lparr>q_feeAmount := 0, q_sellAmount := amountDecimals,
                                    q_buyAmount := slippageBuyAmount (q_buyAmount quote0)\<rparr>,
                  o_signature = signature, o_quoteId = quoteId, o_from = fromAddress\<rparr>]
    \<and> sendOrder_r env log' = Inr uid"
proof -
  from assms have c: "js_lookup supportedChains chain \<noteq> Undefined"
    by (auto simp: sendOrder_def Let_def throw_def split: if_splits)
  from assms c obtain w ws where w: "wallets = w # ws"
    by (cases wallets) (auto simp: sendOrder_def Let_def throw_def)
  from assms c w obtain chainDecimals
    where cd: "num_lookup decimalConverter (js_lookup supportedChains chain) = Some chainDecimals"
    by (cases "num_lookup decimalConverter (js_lookup supportedChains chain)")
       (auto simp: sendOrder_def Let_def bind_Inr call_Inr throw_Inr)
  from assms c w cd have dd: "js_lookup chainDecimals fromAsset \<noteq> Undefined"
    by (auto simp: sendOrder_def Let_def bind_Inr call_Inr throw_Inr split: if_splits)
  show ?thesis
    using assms c w cd dd
    unfolding sendOrder_def Let_def
    apply (simp add: bind_Inr call_Inr lift_Inr try_catch_Inr order_handler_throws allowance_Inr
             split_paired_Ex)
    apply (elim exE conjE)
    apply (simp split: if_splits prod.splits)
     apply (rule_tac x = x in exI, rule_tac x = owner in exI, rule_tac x = aa in exI, simp)
    apply (elim exE conjE)
    apply (rule_tac x = x in exI, rule_tac x = owner in exI, rule_tac x = aa in exI, simp)
    apply (rule exI, rule conjI, rule exI, rule refl)
    apply (rule_tac x = a in exI, simp)
    done
qed

lemma exampleWorld_answers:
  "switchChain_r exampleWorld l = Inr ()"
  "getEthersProvider_r exampleWorld l = Inr ()"
  "getAddress_r exampleWorld l = Inr ''0xOwner''"
  "getQuote_r exampleWorld l = Inr (exampleQuote, Some 7)"
  "signOrder_r exampleWorld l = Inr ''0xSignature''"
  "sendOrder_r exampleWorld l = Inr ''0xOrderUid''"
  by (simp_all add: exampleWorld_def)

lemma sendOrder_example_run:
  "sendOrder exampleWorld [7] ''sepolia'' ''0x94a9d9ac8a22534e3faca9f4e7f2e2cf85d5e4c8'' ''B''
     ''100'' [] = (Inr ''0xOrderUid'', exampleOrderLog)"
proof -
  have c: "js_lookup supportedChains ''sepolia'' = Own 11155111"
    by (simp add: js_lookup_def supportedChains_def)
  have t: "num_lookup decimalConverter (Own 11155111)
             = Some [(''0x7b79995e5f793A07Bc00c21412e50Ecae098E7f9'', 18),
                     (''0x94a9d9ac8a22534e3faca9f4e7f2e2cf85d5e4c8'', 6),
                     (''0x1c7D4B196Cb0C7B01d743Fbc6116a902379C7238'', 6),
                     (''0x08210F9170F89Ab7658F0B5E3fF39b0E03C594D4'', 6),
                     (''0xB4F1737Af37711e9A5890D9510c9bB60e170CB0D'', 18),
                     (''0xbe72E441BF55620febc26715db68d3494213D8Cb'', 18)]"
    by (simp add: num_lookup_def decimalConverter_def)
  have d: "js_lookup [(''0x7b79995e5f793A07Bc00c21412e50Ecae098E7f9'', 18),
                     (''0x94a9d9ac8a22534e3faca9f4e7f2e2cf85d5e4c8'', 6),
                     (''0x1c7D4B196Cb0C7B01d743Fbc6116a902379C7238'', 6),
                     (''0x08210F9170F89Ab7658F0B5E3fF39b0E03C594D4'', 6),
                     (''0xB4F1737Af37711e9A5890D9510c9bB60e170CB0D'', 18),
                     (''0xbe72E441BF55620febc26715db68d3494213D8Cb'', 18)]
            ''0x94a9d9ac8a22534e3faca9f4e7f2e2cf85d5e4c8'' = Own (6::nat)"
    by (simp add: js_lookup_def)
  have v: "num_lookup (COW_PROTOCOL_VAULT_RELAYER_ADDRESS exampleWorld) (Own 11155111)
             = Some ''0xC92E8bdf79f0507f65a392b0ab4667716BFE0110''"
    by (simp add: num_lookup_def exampleWorld_def)
  have a: "checkAllowanceAndApproveIfNecessary exampleWorld
             (Some ''0xC92E8bdf79f0507f65a392b0ab4667716BFE0110'')
             ''0x94a9d9ac8a22534e3faca9f4e7f2e2cf85d5e4c8'' 7 100000000
             [SwitchChain 7 (Own 11155111), GetEthersProvider 7, GetAddress 7]
           = (Inr (), take 7 exampleOrderLog)"
    by (simp add: checkAllowanceAndApproveIfNecessary_def io_defs exampleWorld_def
          exampleOrderLog_def MaxUint256_def)
  have q: "q_buyAmount exampleQuote = Digits 200000000" by (simp add: exampleQuote_def)
  show ?thesis
    unfolding sendOrder_def Let_def c
    by (simp add: t d v parse_100 bind_def call_def lift_def try_catch_def a
          exampleWorld_answers exampleOrderLog_def q order_slippage_scenario)
qed

theorem sendOrder_steps_witness:
  "sendOrder exampleWorld [7] ''sepolia'' ''0x94a9d9ac8a22534e3faca9f4e7f2e2cf85d5e4c8'' ''B''
     ''100'' [] = (Inr ''0xOrderUid'', exampleOrderLog)
   \<and> sendOrder_r exampleWorld exampleOrderLog = Inr ''0xOrderUid''"
proof -
  from sendOrder_steps[OF sendOrder_example_run]
  have "sendOrder_r exampleWorld exampleOrderLog = Inr ''0xOrderUid''" by blast
  with sendOrder_example_run show ?thesis by simp
qed

text \<open>
  The claim as stated puts the quote request before the allowance step. In the run above
  the allowance is read by the fifth call and the quote is requested by the eighth.
\<close>

theorem sendOrder_quote_after_allowance_counterexample:
  "snd (sendOrder exampleWorld [7] ''sepolia'' ''0x94a9d9ac8a22534e3faca9f4e7f2e2cf85d5e4c8''
          ''B'' ''100'' []) = exampleOrderLog
   \<and> firstIndex isAllowanceRead exampleOrderLog = 4
   \<and> firstIndex isQuoteRequest exampleOrderLog = 7
   \<and> \<not> firstIndex isQuoteRequest exampleOrderLog < firstIndex isAllowanceRead exampleOrderLog"
  by (simp add: sendOrder_example_run firstIndex_def exampleOrderLog_def)

end
